theory Spec2Isabelle
  imports Complex_Main "HOL-Library.Word"
begin

section \<open>Python primitives shared by both scripts\<close>

text \<open>
  Exceptions are values. Only the exception classes that the two scripts can raise
  from their own statements are listed; \<open>OSError\<close> stands for the file-system
  failures (\<open>FileNotFoundError\<close>, \<open>IsADirectoryError\<close>, \<open>PermissionError\<close>).
\<close>

datatype py_error =
    AssertionError
  | ZeroDivisionError
  | KeyError
  | ValueError
  | OSError
  | UnidentifiedImageError

text \<open>Python's \<open>a % b\<close> and \<open>a // b\<close> on integers: floor semantics, raising on \<open>b = 0\<close>.\<close>

definition py_mod :: "int \<Rightarrow> int \<Rightarrow> py_error + int" where
  "py_mod a b = (if b = 0 then Inl ZeroDivisionError else Inr (a mod b))"

definition py_floordiv :: "int \<Rightarrow> int \<Rightarrow> py_error + int" where
  "py_floordiv a b = (if b = 0 then Inl ZeroDivisionError else Inr (a div b))"

text \<open>\<open>len(range(0, stop, step))\<close>; a zero step raises \<open>ValueError\<close>.\<close>

definition range_len :: "int \<Rightarrow> int \<Rightarrow> py_error + nat" where
  "range_len stop step =
     (if step = 0 then Inl ValueError
      else if 0 < step then Inr (if 0 < stop then nat ((stop + step - 1) div step) else 0)
      else Inr (if stop < 0 then nat ((- stop - step - 1) div (- step)) else 0))"

section \<open>shrink.py\<close>

text \<open>
  An image is its size \<open>(width, height)\<close> and its pixel data, which stays abstract.
  A path of the file system holds an image file, some other file, or a directory.
\<close>

record 'p image =
  im_size :: "int \<times> int"
  im_pixels :: 'p

datatype 'p fnode = Image_file "'p image" | Other_file | Directory

type_synonym 'p fs = "string \<rightharpoonup> 'p fnode"

text \<open>\<open>Image.open(path)\<close>: the file must exist and be recognised as an image.\<close>

definition Image_open :: "'p fs \<Rightarrow> string \<Rightarrow> py_error + 'p image" where
  "Image_open fs path =
     (case fs path of
        None \<Rightarrow> Inl OSError
      | Some Directory \<Rightarrow> Inl OSError
      | Some Other_file \<Rightarrow> Inl UnidentifiedImageError
      | Some (Image_file im) \<Rightarrow> Inr im)"

text \<open>
  \<open>im.resize((w, h), Image.ANTIALIAS)\<close>: the library refuses a non-positive width or
  height; otherwise the result has the requested size. The resampling filter that
  computes the new pixels is the library's and is a parameter here.
\<close>

definition resize :: "('p image \<Rightarrow> int \<times> int \<Rightarrow> 'p) \<Rightarrow> 'p image \<Rightarrow> int \<times> int \<Rightarrow> py_error + 'p image" where
  "resize resample im sz =
     (if fst sz \<le> 0 \<or> snd sz \<le> 0 then Inl ValueError
      else Inr \<lparr>im_size = sz, im_pixels = resample im sz\<rparr>)"

text \<open>
  \<open>im.save(path)\<close>: the output format is chosen from the file name's extension, and an
  extension the library does not know raises \<open>ValueError\<close> before the file is touched.
  Which extensions are known is the library's table, a parameter here. A failure of the
  encoder after the file has been opened for writing is not part of this model.
\<close>

definition Image_save :: "(string \<Rightarrow> bool) \<Rightarrow> 'p fs \<Rightarrow> string \<Rightarrow> 'p image \<Rightarrow> py_error + 'p fs" where
  "Image_save known_ext fs path im =
     (if known_ext path then Inr (fs(path \<mapsto> Image_file im)) else Inl ValueError)"

text \<open>The f-string \<open>f"{folder}\\{file}"\<close>: folder, one backslash, file name.\<close>

definition new_file :: "string \<Rightarrow> string \<Rightarrow> string" where
  "new_file folder file = folder @ [CHR 0x5C] @ file"

text \<open>
  The state of the loop: the file system, the log of the paths passed to
  \<open>Image.open\<close> and the log of the \<open>save\<close> calls (path and image saved), both
  oldest first.
\<close>

record 'p shrink_state =
  files :: "'p fs"
  opened :: "string list"
  saved :: "(string \<times> 'p image) list"

text \<open>
  The \<open>for file in os.listdir(folder)\<close> loop over the entries of the listing. The first
  exception ends the script; the state reached so far is returned with it.
\<close>

fun shrink_loop ::
  "('p image \<Rightarrow> int \<times> int \<Rightarrow> 'p) \<Rightarrow> (string \<Rightarrow> bool) \<Rightarrow> string \<Rightarrow> int \<Rightarrow> int \<Rightarrow>
   string list \<Rightarrow> 'p shrink_state \<Rightarrow> 'p shrink_state \<times> py_error option" where
  "shrink_loop resample known_ext folder w h [] st = (st, None)"
| "shrink_loop resample known_ext folder w h (file # rest) st =
     (let st1 = st\<lparr>opened := opened st @ [new_file folder file]\<rparr> in
      case Image_open (files st) (new_file folder file) of
        Inl e \<Rightarrow> (st1, Some e)
      | Inr im \<Rightarrow>
          (case resize resample im (w, h) of
             Inl e \<Rightarrow> (st1, Some e)
           | Inr im' \<Rightarrow>
               (case Image_save known_ext (files st) (new_file folder file) im' of
                  Inl e \<Rightarrow> (st1, Some e)
                | Inr fs' \<Rightarrow>
                    shrink_loop resample known_ext folder w h rest
                      (st1\<lparr>files := fs', saved := saved st @ [(new_file folder file, im')]\<rparr>))))"

text \<open>
  The script: the width and the height have been read and parsed, \<open>os.listdir(folder)\<close>
  either raises or returns the entries (the answer of the operating system is the
  parameter \<open>listing\<close>), then the loop runs from the given file system with empty logs.
\<close>

definition shrink ::
  "('p image \<Rightarrow> int \<times> int \<Rightarrow> 'p) \<Rightarrow> (string \<Rightarrow> bool) \<Rightarrow> (py_error + string list) \<Rightarrow>
   string \<Rightarrow> int \<Rightarrow> int \<Rightarrow> 'p fs \<Rightarrow> 'p shrink_state \<times> py_error option" where
  "shrink resample known_ext listing folder w h fs =
     (case listing of
        Inl e \<Rightarrow> (\<lparr>files = fs, opened = [], saved = []\<rparr>, Some e)
      | Inr entries \<Rightarrow> shrink_loop resample known_ext folder w h entries
          \<lparr>files = fs, opened = [], saved = []\<rparr>)"

section \<open>training\_loop.py: save\_image\_grid\<close>

text \<open>
  \<open>np.rint\<close> rounds to the nearest integer and a tie to the even neighbour.
\<close>

definition rint :: "real \<Rightarrow> int" where
  "rint x =
     (let f = \<lfloor>x\<rfloor>; d = x - of_int f in
      if d < 1 / 2 then f else if 1 / 2 < d then f + 1 else if even f then f else f + 1)"

text \<open>\<open>.clip(0, 255)\<close> is \<open>minimum(255, maximum(v, 0))\<close>; \<open>.astype(np.uint8)\<close> keeps 8 bits.\<close>

definition clip_byte :: "int \<Rightarrow> int" where
  "clip_byte v = min 255 (max v 0)"

definition to_uint8 :: "real \<Rightarrow> 8 word" where
  "to_uint8 v = word_of_int (clip_byte (rint v))"

text \<open>
  A four-dimensional array as numpy stores it: its shape \<open>(N, C, H, W)\<close> and its
  elements in row-major order. The array is well formed when the number of elements
  is the product of the shape.
\<close>

record ndarray4 =
  shape :: "nat \<times> nat \<times> nat \<times> nat"
  elems :: "real list"

definition wf_ndarray4 :: "ndarray4 \<Rightarrow> bool" where
  "wf_ndarray4 a \<longleftrightarrow> (case shape a of (N, C, H, W) \<Rightarrow> length (elems a) = N * C * H * W)"

text \<open>The image handed to \<open>PIL.Image.fromarray\<close>: rows, columns, channels, row-major bytes.\<close>

record grid_image =
  height :: nat
  width :: nat
  channels :: nat
  mode :: string
  bytes :: "8 word list"

text \<open>
  Element \<open>k\<close> of the final array of shape \<open>(gh * H, gw * W, C)\<close>. The row \<open>r\<close>, the
  column \<open>q\<close> and the channel \<open>c\<close> of \<open>k\<close> are split as
  \<open>reshape(gh * H, gw * W, C)\<close> joined them; \<open>transpose(0, 3, 1, 4, 2)\<close> reads the element
  \<open>[r div H, q div W, c, r mod H, q mod W]\<close> of the array reshaped to
  \<open>(gh, gw, C, H, W)\<close>, which is element \<open>[(r div H) * gw + q div W, c, r mod H, q mod W]\<close>
  of the input.
\<close>

definition grid_source_index :: "nat \<Rightarrow> nat \<Rightarrow> nat \<Rightarrow> nat \<Rightarrow> nat \<Rightarrow> nat" where
  "grid_source_index gw C H W k =
     (let c = k mod C; q = (k div C) mod (gw * W); r = k div C div (gw * W);
          n = (r div H) * gw + q div W
      in ((n * C + c) * H + r mod H) * W + q mod W)"

text \<open>The lookup \<open>{3: 'RGB', 1: 'L'}[C]\<close>.\<close>

definition mode_of_channels :: "nat \<Rightarrow> py_error + string" where
  "mode_of_channels C = (if C = 3 then Inr ''RGB'' else if C = 1 then Inr ''L'' else Inl KeyError)"

text \<open>
  \<open>PIL.Image.fromarray(array, mode)\<close> refuses, with \<open>ValueError\<close>, an array that has more
  dimensions than the mode allows: two for the modes \<open>1\<close>, \<open>L\<close>, \<open>I\<close>, \<open>P\<close> and \<open>F\<close>,
  three for \<open>RGB\<close>, four for every other mode.
\<close>

definition fromarray_ndmax :: "string \<Rightarrow> nat" where
  "fromarray_ndmax m =
     (if m \<in> set [''1'', ''L'', ''I'', ''P'', ''F''] then 2 else if m = ''RGB'' then 3 else 4)"

text \<open>
  The arithmetic on one pixel value \<open>v\<close>. The rounding of the two floating-point
  formats is a parameter: \<open>f32\<close> rounds a real number to \<open>float32\<close> and \<open>f64\<close> to a
  Python float. \<open>np.asarray(images, dtype=np.float32)\<close> rounds \<open>v\<close>; \<open>images - lo\<close> is
  a \<open>float32\<close> subtraction of the scalar \<open>lo\<close>; \<open>255 / (hi - lo)\<close> is computed by Python
  in double precision; the product with it is again a \<open>float32\<close> operation. With the
  identity for both roundings this is \<open>(v - lo) * (255 / (hi - lo))\<close> on real numbers.
\<close>

definition scale_pixel :: "(real \<Rightarrow> real) \<Rightarrow> (real \<Rightarrow> real) \<Rightarrow> real \<Rightarrow> real \<Rightarrow> real \<Rightarrow> real" where
  "scale_pixel f32 f64 lo hi v = f32 (f32 (f32 v - f32 lo) * f32 (f64 (255 / f64 (hi - lo))))"

text \<open>
  \<open>save_image_grid(images, filename, drange, grid_size)\<close> returns the files it
  writes, as pairs of file name and image. The statements that can raise, in the order
  of the source: the division \<open>255 / (hi - lo)\<close>, the first \<open>reshape\<close> (the number of
  elements must stay the same), the mode lookup, and \<open>fromarray\<close>, which is given
  the array of the three dimensions \<open>(gh * H, gw * W, C)\<close> for every \<open>C\<close>.
\<close>

definition save_image_grid ::
  "(real \<Rightarrow> real) \<Rightarrow> (real \<Rightarrow> real) \<Rightarrow> ndarray4 \<Rightarrow> string \<Rightarrow> real \<times> real \<Rightarrow> nat \<times> nat \<Rightarrow>
   py_error + (string \<times> grid_image) list" where
  "save_image_grid f32 f64 images filename drange grid_size =
     (case drange of (lo, hi) \<Rightarrow>
      case grid_size of (gw, gh) \<Rightarrow>
      if f64 (hi - lo) = 0 then Inl ZeroDivisionError
      else
        let scaled = map (scale_pixel f32 f64 lo hi) (elems images);
            pixels = map to_uint8 scaled
        in case shape images of (N, C, H, W) \<Rightarrow>
          if gh * gw * C * H * W \<noteq> N * C * H * W then Inl ValueError
          else
            (case mode_of_channels C of
               Inl e \<Rightarrow> Inl e
             | Inr m \<Rightarrow>
                 if fromarray_ndmax m < 3 then Inl ValueError
                 else
                   Inr [(filename,
                         \<lparr>height = gh * H, width = gw * W, channels = C, mode = m,
                          bytes = map (\<lambda>k. pixels ! grid_source_index gw C H W k)
                                    [0 ..< gh * H * (gw * W) * C]\<rparr>)]))"

section \<open>Auxiliary notions for the properties of shrink.py\<close>

text \<open>Every path in the log of saves holds, in the file system, an image that was saved there.\<close>

definition holds_saved :: "'p shrink_state \<Rightarrow> bool" where
  "holds_saved st \<longleftrightarrow>
     (\<forall>p\<in>fst ` set (saved st). \<exists>im. files st p = Some (Image_file im) \<and> (p, im) \<in> set (saved st))"

text \<open>
  A small file system: two images of different sizes under \<open>d\<close>, a backslash and
  their names, and a text file; and the state after shrinking both images to 32 by 16.
\<close>

definition ex_fs :: "nat fs" where
  "ex_fs = [''d'' @ [CHR 0x5C] @ ''a.png'' \<mapsto> Image_file \<lparr>im_size = (640, 480), im_pixels = 1\<rparr>,
            ''d'' @ [CHR 0x5C] @ ''b.png'' \<mapsto> Image_file \<lparr>im_size = (10, 900), im_pixels = 2\<rparr>,
            ''other.txt'' \<mapsto> Other_file]"

definition ex_shrunk :: "nat shrink_state" where
  "ex_shrunk =
     \<lparr>files = ex_fs(''d'' @ [CHR 0x5C] @ ''a.png'' \<mapsto> Image_file \<lparr>im_size = (32, 16), im_pixels = 1\<rparr>,
            ''d'' @ [CHR 0x5C] @ ''b.png'' \<mapsto> Image_file \<lparr>im_size = (32, 16), im_pixels = 2\<rparr>),
       opened = [''d'' @ [CHR 0x5C] @ ''a.png'', ''d'' @ [CHR 0x5C] @ ''b.png''],
       saved = [(''d'' @ [CHR 0x5C] @ ''a.png'', \<lparr>im_size = (32, 16), im_pixels = 1\<rparr>),
                (''d'' @ [CHR 0x5C] @ ''b.png'', \<lparr>im_size = (32, 16), im_pixels = 2\<rparr>)]\<rparr>"


section \<open>training\_loop.py: the training script\<close>

subsection \<open>File names\<close>

text \<open>The decimal digits of a natural number, and the format \<open>{n:06d}\<close> of an f-string.\<close>

fun digits :: "nat \<Rightarrow> string" where
  "digits n = (if n < 10 then [char_of (48 + n)] else digits (n div 10) @ [char_of (48 + n mod 10)])"

declare digits.simps [simp del]

definition fmt06d :: "int \<Rightarrow> string" where
  "fmt06d n =
     (if n < 0 then
        (let d = digits (nat (- n)) in CHR ''-'' # replicate (5 - length d) (CHR ''0'') @ d)
      else
        (let d = digits (nat n) in replicate (6 - length d) (CHR ''0'') @ d))"

text \<open>\<open>os.path.join(a, b)\<close> for a relative \<open>b\<close>, with the separator \<open>/\<close>.\<close>

definition path_join :: "string \<Rightarrow> string \<Rightarrow> string" where
  "path_join a b = (if a = [] \<or> last a = CHR ''/'' then a @ b else a @ ''/'' @ b)"

subsection \<open>Configuration, framework and state\<close>

text \<open>
  The operations of the training graph, the four optimizers, and loss expressions as
  far as the script builds them: a term of the loss function, the sum of two
  expressions (\<open>+=\<close>), and \<open>tf.reduce_mean(reg * interval)\<close>.
\<close>

datatype train_op = G_train_op | D_train_op | G_reg_op | D_reg_op | Gs_update_op | data_fetch_op

datatype optimizer = G_E_opt | D_opt | G_reg_opt | D_reg_opt

datatype loss = Term string | Plus loss loss | Reduce_mean_times loss int

record terms =
  G_E_loss :: loss
  D_loss :: loss
  G_reg :: "loss option"
  D_reg :: "loss option"
  E_reg :: "loss option"

text \<open>The six networks, and the tuple that a snapshot pickles.\<close>

record 'n nets =
  net_G :: 'n
  net_D :: 'n
  net_Gs :: 'n
  net_E :: 'n
  net_D_H :: 'n
  net_D_J :: 'n

type_synonym 'n snapshot = "'n \<times> 'n \<times> 'n \<times> 'n \<times> 'n \<times> 'n"

text \<open>
  The arguments of \<open>training_loop\<close> that the control flow reads. The option
  dictionaries of the optimizers map names to numbers. \<open>augment\<close> says whether
  \<open>augment_args\<close> names a class, \<open>num_metrics\<close> is the length of \<open>metric_arg_list\<close>,
  \<open>progress_fn\<close> says whether a progress callback was given, and \<open>abort_fn\<close>, when
  given, answers its \<open>k\<close>-th call (counted from 0) with \<open>f k\<close>.
\<close>

record config =
  run_dir :: string
  G_E_opt_args :: "string \<rightharpoonup> real"
  D_opt_args :: "string \<rightharpoonup> real"
  augment :: bool
  num_metrics :: nat
  num_gpus :: int
  minibatch_size :: int
  minibatch_gpu :: int
  G_smoothing_kimg :: real
  G_smoothing_rampup :: "real option"
  minibatch_repeats :: int
  lazy_regularization :: bool
  G_reg_interval :: int
  D_reg_interval :: int
  total_kimg :: int
  kimg_per_tick :: int
  image_snapshot_ticks :: "int option"
  network_snapshot_ticks :: "int option"
  resume_pkl :: "string option"
  abort_fn :: "(nat \<Rightarrow> bool) option"
  progress_fn :: bool

text \<open>
  The deep-learning framework is a parameter: how a network is constructed and cloned,
  what \<open>dst.copy_vars_from(src)\<close> leaves in \<open>dst\<close>, what a session run of some
  operations (with the value fed for \<open>Gs_beta_in\<close>, if any) does to the six networks,
  and the terms that the loss function returns on each GPU.
\<close>

record 'n framework =
  Network :: "string \<Rightarrow> 'n"
  clone :: "'n \<Rightarrow> string \<Rightarrow> 'n"
  copy_vars_from :: "'n \<Rightarrow> 'n \<Rightarrow> 'n"
  session_run :: "train_op list \<Rightarrow> real option \<Rightarrow> 'n nets \<Rightarrow> 'n nets"
  loss_terms :: "nat \<Rightarrow> terms"

text \<open>
  The effects of the script that are visible from outside, in the order in which they
  happen. Printing and the scalar summaries are not recorded.
\<close>

datatype 'n event =
    Load_dataset
  | Construct_networks
  | Open_url string
  | Save_png string
  | Gs_run
  | Aug_init
  | Make_optimizer optimizer "string \<rightharpoonup> real"
  | Register_gradients optimizer loss "string list"
  | Tf_run "train_op list" "real option"
  | Aug_run_validation int
  | Aug_tune int
  | Progress_fn int int
  | Pickle_dump string "'n snapshot"
  | Metric_configure
  | Metric_run string
  | Metric_update
  | Save_summaries int
  | Close_log
  | Close_dataset

text \<open>
  The variables of the training loop, the networks, the pickle files on disk and the
  trace of events so far.
\<close>

record 'n loop_state =
  cur_nimg :: int
  cur_tick :: int
  tick_start_nimg :: int
  running_mb_counter :: int
  abort_calls :: nat
  nets :: "'n nets"
  disk :: "string \<rightharpoonup> 'n snapshot"
  trace :: "'n event list"

datatype outcome = Finished | Raised py_error | Out_of_fuel

definition emit :: "'n event list \<Rightarrow> 'n loop_state \<Rightarrow> 'n loop_state" where
  "emit es st = st\<lparr>trace := trace st @ es\<rparr>"

text \<open>\<open>tflib.run(ops, feed)\<close>: the framework updates the networks.\<close>

definition tflib_run :: "'n framework \<Rightarrow> train_op list \<Rightarrow> real option \<Rightarrow> 'n loop_state \<Rightarrow> 'n loop_state" where
  "tflib_run fw ops feed st =
     st\<lparr>nets := session_run fw ops feed (nets st), trace := trace st @ [Tf_run ops feed]\<rparr>"

subsection \<open>Networks, resuming and snapshots\<close>

definition initial_nets :: "'n framework \<Rightarrow> 'n nets" where
  "initial_nets fw =
     (let G = Network fw ''G''; D = Network fw ''D''; Gs = clone fw G ''Gs'';
          E = Network fw ''E''; D_H = Network fw ''D_H''; D_J = Network fw ''D_J''
      in \<lparr>net_G = G, net_D = D, net_Gs = Gs, net_E = E, net_D_H = D_H, net_D_J = D_J\<rparr>)"

text \<open>
  \<open>if resume_pkl is not None\<close>: the pickle is opened (a missing file raises), unpacked
  into \<open>rG, rD, rGs, rE, rD_H, rD_J\<close>, and each network copies its variables from its
  counterpart.
\<close>

definition resume_networks ::
  "'n framework \<Rightarrow> (string \<rightharpoonup> 'n snapshot) \<Rightarrow> string option \<Rightarrow> 'n nets \<Rightarrow> py_error + 'n nets" where
  "resume_networks fw dsk resume ns =
     (case resume of
        None \<Rightarrow> Inr ns
      | Some url \<Rightarrow>
          (case dsk url of
             None \<Rightarrow> Inl OSError
           | Some (rG, rD, rGs, rE, rD_H, rD_J) \<Rightarrow>
               Inr \<lparr>net_G = copy_vars_from fw (net_G ns) rG,
                    net_D = copy_vars_from fw (net_D ns) rD,
                    net_Gs = copy_vars_from fw (net_Gs ns) rGs,
                    net_E = copy_vars_from fw (net_E ns) rE,
                    net_D_H = copy_vars_from fw (net_D_H ns) rD_H,
                    net_D_J = copy_vars_from fw (net_D_J ns) rD_J\<rparr>))"

text \<open>The tuple \<open>(G, D, Gs, E, D_H, D_J)\<close> passed to \<open>pickle.dump\<close>.\<close>

definition snapshot_of :: "'n nets \<Rightarrow> 'n snapshot" where
  "snapshot_of ns = (net_G ns, net_D ns, net_Gs ns, net_E ns, net_D_H ns, net_D_J ns)"

definition snapshot_name :: "config \<Rightarrow> int \<Rightarrow> string" where
  "snapshot_name cfg nimg =
     path_join (run_dir cfg) (''network-snapshot-'' @ fmt06d (nimg div 1000) @ ''.pkl'')"

definition fakes_name :: "config \<Rightarrow> int \<Rightarrow> string" where
  "fakes_name cfg nimg = path_join (run_dir cfg) (''fakes'' @ fmt06d (nimg div 1000) @ ''.png'')"

subsection \<open>Optimizer options and gradient registration\<close>

text \<open>
  Python's \<open>b ** x\<close> on floats, for a base \<open>b \<ge> 0\<close> and an exponent \<open>x \<ge> 0\<close> (the
  exponent \<open>mb_ratio\<close> is never negative): \<open>b ** 0\<close> is 1 also for \<open>b = 0\<close>.
\<close>

definition float_pow :: "real \<Rightarrow> real \<Rightarrow> real" where
  "float_pow b x = (if x = 0 then 1 else b powr x)"

text \<open>
  One turn of the loop over \<open>(args, reg_interval)\<close>: the minibatch multiplier is stored,
  and under lazy regularization the learning rate and the betas are rescaled.
  \<open>args['learning_rate'] *= mb_ratio\<close> raises \<open>KeyError\<close> when the key is missing.
\<close>

definition rescale_opt_args ::
  "config \<Rightarrow> int \<Rightarrow> (string \<rightharpoonup> real) \<Rightarrow> py_error + (string \<rightharpoonup> real)" where
  "rescale_opt_args cfg reg_interval args =
     (case py_floordiv (minibatch_size cfg) (num_gpus cfg) of
        Inl e \<Rightarrow> Inl e
      | Inr m1 \<Rightarrow>
     (case py_floordiv m1 (minibatch_gpu cfg) of
        Inl e \<Rightarrow> Inl e
      | Inr m2 \<Rightarrow>
          (let args1 = args(''minibatch_multiplier'' \<mapsto> of_int m2) in
           if \<not> lazy_regularization cfg then Inr args1
           else if reg_interval + 1 = 0 then Inl ZeroDivisionError
           else
             (let mb_ratio = of_int reg_interval / of_int (reg_interval + 1) in
              case args1 ''learning_rate'' of
                None \<Rightarrow> Inl KeyError
              | Some lr \<Rightarrow>
                  (let args2 = args1(''learning_rate'' \<mapsto> lr * mb_ratio);
                       args3 = (case args2 ''beta1'' of
                                  None \<Rightarrow> args2
                                | Some b \<Rightarrow> args2(''beta1'' \<mapsto> float_pow b mb_ratio));
                       args4 = (case args3 ''beta2'' of
                                  None \<Rightarrow> args3
                                | Some b \<Rightarrow> args3(''beta2'' \<mapsto> float_pow b mb_ratio))
                   in Inr args4)))))"

text \<open>
  The gradient registrations of one GPU, from the terms of the loss function: under
  lazy regularization the regularization terms go to the regularization optimizers,
  otherwise they are added to the main losses (\<open>E_reg\<close> too).
\<close>

definition register_gpu :: "config \<Rightarrow> terms \<Rightarrow> 'n event list" where
  "register_gpu cfg t =
     (if lazy_regularization cfg then
        (case G_reg t of
           None \<Rightarrow> []
         | Some g \<Rightarrow> [Register_gradients G_reg_opt (Reduce_mean_times g (G_reg_interval cfg)) [''G'']])
        @ (case D_reg t of
             None \<Rightarrow> []
           | Some d \<Rightarrow> [Register_gradients D_reg_opt (Reduce_mean_times d (D_reg_interval cfg)) [''D'']])
        @ [Register_gradients G_E_opt (G_E_loss t) [''G'', ''E''],
           Register_gradients D_opt (D_loss t) [''D'', ''D_H'', ''D_J'']]
      else
        (let ge1 = (case G_reg t of None \<Rightarrow> G_E_loss t | Some g \<Rightarrow> Plus (G_E_loss t) g);
             d1 = (case D_reg t of None \<Rightarrow> D_loss t | Some d \<Rightarrow> Plus (D_loss t) d);
             ge2 = (case E_reg t of None \<Rightarrow> ge1 | Some e \<Rightarrow> Plus ge1 e)
         in [Register_gradients G_E_opt ge2 [''G'', ''E''],
             Register_gradients D_opt d1 [''D'', ''D_H'', ''D_J'']]))"

subsection \<open>One minibatch\<close>

text \<open>
  The decay of the moving average, computed once at the start of each pass of the
  \<open>while\<close> loop from the value of \<open>cur_nimg\<close> there. Real arithmetic stands for the
  floating-point arithmetic of the source.
\<close>

definition Gs_nimg_of :: "config \<Rightarrow> int \<Rightarrow> real" where
  "Gs_nimg_of cfg nimg =
     (let Gs_nimg = G_smoothing_kimg cfg * 1000 in
      case G_smoothing_rampup cfg of
        None \<Rightarrow> Gs_nimg
      | Some rampup \<Rightarrow> min Gs_nimg (of_int nimg * rampup))"

definition Gs_beta_of :: "config \<Rightarrow> int \<Rightarrow> real" where
  "Gs_beta_of cfg nimg =
     (1 / 2) powr (of_int (minibatch_size cfg) / max (Gs_nimg_of cfg nimg) (1 / 10 ^ 8))"

text \<open>
  \<open>lazy_regularization and running_mb_counter % interval == 0\<close>: the remainder is
  only computed, and can only raise, under lazy regularization.
\<close>

definition reg_due :: "config \<Rightarrow> int \<Rightarrow> int \<Rightarrow> py_error + bool" where
  "reg_due cfg counter interval =
     (if \<not> lazy_regularization cfg then Inr False
      else case py_mod counter interval of Inl e \<Rightarrow> Inl e | Inr r \<Rightarrow> Inr (r = 0))"

text \<open>The fast path, taken when there is exactly one round.\<close>

definition fast_path :: "'n framework \<Rightarrow> real \<Rightarrow> bool \<Rightarrow> bool \<Rightarrow> 'n loop_state \<Rightarrow> 'n loop_state" where
  "fast_path fw Gs_beta run_G_reg run_D_reg st =
     (let st1 = tflib_run fw [G_train_op, data_fetch_op] None st;
          st2 = (if run_G_reg then tflib_run fw [G_reg_op] None st1 else st1);
          st3 = tflib_run fw [D_train_op, Gs_update_op] (Some Gs_beta) st2
      in if run_D_reg then tflib_run fw [D_reg_op] None st3 else st3)"

text \<open>The two \<open>for _round in rounds\<close> statements of the slow path, over the number of rounds.\<close>

primrec G_rounds :: "'n framework \<Rightarrow> bool \<Rightarrow> nat \<Rightarrow> 'n loop_state \<Rightarrow> 'n loop_state" where
  "G_rounds fw run_G_reg 0 st = st"
| "G_rounds fw run_G_reg (Suc n) st =
     (let st1 = tflib_run fw [G_train_op] None st;
          st2 = (if run_G_reg then tflib_run fw [G_reg_op] None st1 else st1)
      in G_rounds fw run_G_reg n st2)"

primrec D_rounds :: "'n framework \<Rightarrow> bool \<Rightarrow> nat \<Rightarrow> 'n loop_state \<Rightarrow> 'n loop_state" where
  "D_rounds fw run_D_reg 0 st = st"
| "D_rounds fw run_D_reg (Suc n) st =
     (let st1 = tflib_run fw [data_fetch_op] None st;
          st2 = tflib_run fw [D_train_op] None st1;
          st3 = (if run_D_reg then tflib_run fw [D_reg_op] None st2 else st2)
      in D_rounds fw run_D_reg n st3)"

definition slow_path ::
  "'n framework \<Rightarrow> real \<Rightarrow> nat \<Rightarrow> bool \<Rightarrow> bool \<Rightarrow> 'n loop_state \<Rightarrow> 'n loop_state" where
  "slow_path fw Gs_beta rounds run_G_reg run_D_reg st =
     (let st1 = G_rounds fw run_G_reg rounds st;
          st2 = tflib_run fw [Gs_update_op] (Some Gs_beta) st1
      in D_rounds fw run_D_reg rounds st2)"

text \<open>
  The body of \<open>for _repeat_idx in range(minibatch_repeats)\<close>. The statements that can
  raise come first, in the order of the source; the state is returned with the error.
\<close>

definition minibatch_iteration ::
  "'n framework \<Rightarrow> config \<Rightarrow> real \<Rightarrow> 'n loop_state \<Rightarrow> 'n loop_state \<times> py_error option" where
  "minibatch_iteration fw cfg Gs_beta st =
     (case range_len (minibatch_size cfg) (minibatch_gpu cfg * num_gpus cfg) of
        Inl e \<Rightarrow> (st, Some e)
      | Inr rounds \<Rightarrow>
     (case reg_due cfg (running_mb_counter st) (G_reg_interval cfg) of
        Inl e \<Rightarrow> (st, Some e)
      | Inr run_G_reg \<Rightarrow>
     (case reg_due cfg (running_mb_counter st) (D_reg_interval cfg) of
        Inl e \<Rightarrow> (st, Some e)
      | Inr run_D_reg \<Rightarrow>
          (let st1 = st\<lparr>cur_nimg := cur_nimg st + minibatch_size cfg,
                        running_mb_counter := running_mb_counter st + 1\<rparr>;
               st2 = (if rounds = 1 then fast_path fw Gs_beta run_G_reg run_D_reg st1
                      else slow_path fw Gs_beta rounds run_G_reg run_D_reg st1);
               st3 = (if augment cfg then emit [Aug_run_validation (minibatch_size cfg)] st2 else st2)
           in (st3, None)))))"

primrec repeat_loop ::
  "'n framework \<Rightarrow> config \<Rightarrow> real \<Rightarrow> nat \<Rightarrow> 'n loop_state \<Rightarrow> 'n loop_state \<times> py_error option" where
  "repeat_loop fw cfg Gs_beta 0 st = (st, None)"
| "repeat_loop fw cfg Gs_beta (Suc n) st =
     (case minibatch_iteration fw cfg Gs_beta st of
        (st1, Some e) \<Rightarrow> (st1, Some e)
      | (st1, None) \<Rightarrow> repeat_loop fw cfg Gs_beta n st1)"

subsection \<open>Maintenance once per tick\<close>

text \<open>\<open>done or cur_tick % ticks == 0\<close>: the remainder is not computed when \<open>done\<close> holds.\<close>

definition snapshot_due :: "bool \<Rightarrow> int \<Rightarrow> int \<Rightarrow> py_error + bool" where
  "snapshot_due dn tick ticks =
     (if dn then Inr True
      else case py_mod tick ticks of Inl e \<Rightarrow> Inl e | Inr r \<Rightarrow> Inr (r = 0))"

definition image_snapshot ::
  "config \<Rightarrow> bool \<Rightarrow> 'n loop_state \<Rightarrow> 'n loop_state \<times> py_error option" where
  "image_snapshot cfg dn st =
     (case image_snapshot_ticks cfg of
        None \<Rightarrow> (st, None)
      | Some ticks \<Rightarrow>
          (case snapshot_due dn (cur_tick st) ticks of
             Inl e \<Rightarrow> (st, Some e)
           | Inr due \<Rightarrow>
               if due then (emit [Gs_run, Save_png (fakes_name cfg (cur_nimg st))] st, None)
               else (st, None)))"

definition network_snapshot ::
  "config \<Rightarrow> bool \<Rightarrow> 'n loop_state \<Rightarrow> 'n loop_state \<times> py_error option" where
  "network_snapshot cfg dn st =
     (case network_snapshot_ticks cfg of
        None \<Rightarrow> (st, None)
      | Some ticks \<Rightarrow>
          (case snapshot_due dn (cur_tick st) ticks of
             Inl e \<Rightarrow> (st, Some e)
           | Inr due \<Rightarrow>
               if due then
                 (let pkl = snapshot_name cfg (cur_nimg st);
                      st1 = st\<lparr>disk := (disk st)(pkl \<mapsto> snapshot_of (nets st)),
                                trace := trace st @ [Pickle_dump pkl (snapshot_of (nets st))]\<rparr>
                  in (emit (replicate (num_metrics cfg) (Metric_run pkl)) st1, None))
               else (st, None)))"

text \<open>
  The body of \<open>if done or cur_tick < 0 or ...\<close>. The division \<open>tick_time / tick_kimg\<close> in
  the progress report raises when no image was shown since the previous tick.
\<close>

definition maintenance ::
  "config \<Rightarrow> bool \<Rightarrow> 'n loop_state \<Rightarrow> 'n loop_state \<times> py_error option" where
  "maintenance cfg dn st =
     (let st1 = st\<lparr>cur_tick := cur_tick st + 1, tick_start_nimg := cur_nimg st\<rparr> in
      if cur_nimg st - tick_start_nimg st = 0 then (st1, Some ZeroDivisionError)
      else
        (let st2 = (if progress_fn cfg
                    then emit [Progress_fn (cur_nimg st1 div 1000) (total_kimg cfg)] st1 else st1)
         in case image_snapshot cfg dn st2 of
              (st3, Some e) \<Rightarrow> (st3, Some e)
            | (st3, None) \<Rightarrow>
                (case network_snapshot cfg dn st3 of
                   (st4, Some e) \<Rightarrow> (st4, Some e)
                 | (st4, None) \<Rightarrow>
                     (emit (replicate (num_metrics cfg) Metric_update @ [Save_summaries (cur_nimg st4)])
                        st4, None))))"

subsection \<open>The while loop and the script\<close>

text \<open>
  \<open>done = (cur_nimg >= total_kimg * 1000) or (abort_fn is not None and abort_fn())\<close>: the
  callback is only called when the first disjunct is false.
\<close>

definition check_done :: "config \<Rightarrow> 'n loop_state \<Rightarrow> bool \<times> 'n loop_state" where
  "check_done cfg st =
     (if total_kimg cfg * 1000 \<le> cur_nimg st then (True, st)
      else case abort_fn cfg of
             None \<Rightarrow> (False, st)
           | Some f \<Rightarrow> (f (abort_calls st), st\<lparr>abort_calls := Suc (abort_calls st)\<rparr>))"

text \<open>One pass of \<open>while not done\<close>; the result is the new value of \<open>done\<close>, or the error.\<close>

definition loop_pass ::
  "'n framework \<Rightarrow> config \<Rightarrow> 'n loop_state \<Rightarrow> 'n loop_state \<times> (py_error + bool)" where
  "loop_pass fw cfg st =
     (let Gs_beta = Gs_beta_of cfg (cur_nimg st) in
      case repeat_loop fw cfg Gs_beta (nat (minibatch_repeats cfg)) st of
        (st1, Some e) \<Rightarrow> (st1, Inl e)
      | (st1, None) \<Rightarrow>
          (let st2 = (if augment cfg
                      then emit [Aug_tune (minibatch_size cfg * minibatch_repeats cfg)] st1 else st1)
           in case check_done cfg st2 of
                (dn, st3) \<Rightarrow>
                  if dn \<or> cur_tick st3 < 0
                     \<or> tick_start_nimg st3 + kimg_per_tick cfg * 1000 \<le> cur_nimg st3
                  then (case maintenance cfg dn st3 of
                          (st4, Some e) \<Rightarrow> (st4, Inl e)
                        | (st4, None) \<Rightarrow> (st4, Inr dn))
                  else (st3, Inr dn)))"

text \<open>
  The loop with fuel: each pass uses one unit. The result is the state reached, how the
  loop ended, and the number of passes that were started.
\<close>

fun training_while ::
  "'n framework \<Rightarrow> config \<Rightarrow> nat \<Rightarrow> 'n loop_state \<Rightarrow> 'n loop_state \<times> outcome \<times> nat" where
  "training_while fw cfg 0 st = (st, Out_of_fuel, 0)"
| "training_while fw cfg (Suc fuel) st =
     (case loop_pass fw cfg st of
        (st1, Inl e) \<Rightarrow> (st1, Raised e, 1)
      | (st1, Inr dn) \<Rightarrow>
          if dn then (st1, Finished, 1)
          else (case training_while fw cfg fuel st1 of
                  (st2, out, n) \<Rightarrow> (st2, out, Suc n)))"

text \<open>The state before the first statement: nothing on the trace, the disk as given.\<close>

definition start_state :: "'n framework \<Rightarrow> (string \<rightharpoonup> 'n snapshot) \<Rightarrow> 'n loop_state" where
  "start_state fw dsk =
     \<lparr>cur_nimg = 0, cur_tick = - 1, tick_start_nimg = 0, running_mb_counter = 0,
      abort_calls = 0, nets = initial_nets fw, disk = dsk, trace = []\<rparr>"

text \<open>\<open>G_gpus\<close> holds \<open>G\<close> and one clone for each \<open>gpu\<close> in \<open>range(1, num_gpus)\<close>.\<close>

definition gpu_count :: "config \<Rightarrow> nat" where
  "gpu_count cfg = nat (max 1 (num_gpus cfg))"

text \<open>
  The script up to the training loop: the assertion, the data set and the networks,
  resuming, the two initial image grids, the augmentation, the optimizers and the
  training graph, the metrics and the first progress report. The calls into the
  framework and the two calls of \<open>save_image_grid\<close> are taken to return (the data set
  has three channels).
\<close>

definition prepare ::
  "'n framework \<Rightarrow> config \<Rightarrow> (string \<rightharpoonup> 'n snapshot) \<Rightarrow> 'n loop_state \<times> py_error option" where
  "prepare fw cfg dsk =
     (let st0 = start_state fw dsk in
      case py_mod (minibatch_size cfg) (num_gpus cfg * minibatch_gpu cfg) of
        Inl e \<Rightarrow> (st0, Some e)
      | Inr r \<Rightarrow>
          if r \<noteq> 0 then (st0, Some AssertionError)
          else
            (let st1 = emit ([Load_dataset, Construct_networks]
                         @ (case resume_pkl cfg of None \<Rightarrow> [] | Some url \<Rightarrow> [Open_url url])) st0
             in case resume_networks fw dsk (resume_pkl cfg) (nets st1) of
                  Inl e \<Rightarrow> (st1, Some e)
                | Inr ns \<Rightarrow>
                    (let st2 = emit ([Save_png (path_join (run_dir cfg) ''reals.png''), Gs_run,
                                      Save_png (path_join (run_dir cfg) ''fakes_init.png'')]
                                 @ (if augment cfg then [Aug_init] else [])) (st1\<lparr>nets := ns\<rparr>)
                     in case rescale_opt_args cfg (G_reg_interval cfg) (G_E_opt_args cfg) of
                          Inl e \<Rightarrow> (st2, Some e)
                        | Inr ge \<Rightarrow>
                            (case rescale_opt_args cfg (D_reg_interval cfg) (D_opt_args cfg) of
                               Inl e \<Rightarrow> (st2, Some e)
                             | Inr d \<Rightarrow>
                                 (emit ([Make_optimizer G_E_opt ge, Make_optimizer D_opt d,
                                         Make_optimizer G_reg_opt ge, Make_optimizer D_reg_opt d]
                                    @ concat (map (\<lambda>gpu. register_gpu cfg (loss_terms fw gpu))
                                               [0 ..< gpu_count cfg])
                                    @ replicate (num_metrics cfg) Metric_configure
                                    @ (if progress_fn cfg then [Progress_fn 0 (total_kimg cfg)] else []))
                                    st2, None)))))"

text \<open>
  \<open>training_loop\<close>: the set-up, the loop with the given fuel, and the two \<open>close\<close> calls
  when the loop has finished.
\<close>

definition training_loop ::
  "'n framework \<Rightarrow> config \<Rightarrow> (string \<rightharpoonup> 'n snapshot) \<Rightarrow> nat \<Rightarrow> 'n loop_state \<times> outcome \<times> nat" where
  "training_loop fw cfg dsk fuel =
     (case prepare fw cfg dsk of
        (st, Some e) \<Rightarrow> (st, Raised e, 0)
      | (st, None) \<Rightarrow>
          (case training_while fw cfg fuel st of
             (st1, out, n) \<Rightarrow>
               if out = Finished then (emit [Close_log, Close_dataset] st1, out, n)
               else (st1, out, n)))"


section \<open>A concrete framework and configuration\<close>

text \<open>
  A framework whose networks are natural numbers: a network is constructed from the
  length of its name, a clone is a copy, \<open>copy_vars_from\<close> takes the source, and a
  session run adds one to \<open>G\<close> for every \<open>G_train_op\<close> and copies \<open>G\<close> to \<open>Gs\<close> for every
  \<open>Gs_update_op\<close>.
\<close>

definition ex_terms :: terms where
  "ex_terms = \<lparr>G_E_loss = Term ''G_E_loss'', D_loss = Term ''D_loss'',
      G_reg = Some (Term ''G_reg''), D_reg = Some (Term ''D_reg''), E_reg = Some (Term ''E_reg'')\<rparr>"

definition ex_session_run :: "train_op list \<Rightarrow> real option \<Rightarrow> nat nets \<Rightarrow> nat nets" where
  "ex_session_run ops feed ns =
     (let ns1 = (if G_train_op \<in> set ops then ns\<lparr>net_G := Suc (net_G ns)\<rparr> else ns)
      in if Gs_update_op \<in> set ops then ns1\<lparr>net_Gs := net_G ns1\<rparr> else ns1)"

definition ex_fw :: "nat framework" where
  "ex_fw = \<lparr>Network = length, clone = (\<lambda>n name. n), copy_vars_from = (\<lambda>dst src. src),
      session_run = ex_session_run, loss_terms = (\<lambda>gpu. ex_terms)\<rparr>"

text \<open>The default arguments of \<open>training_loop\<close>, with Adam options for both optimizers.\<close>

definition ex_opt_args :: "string \<rightharpoonup> real" where
  "ex_opt_args = [''learning_rate'' \<mapsto> 1 / 500, ''beta1'' \<mapsto> 0, ''beta2'' \<mapsto> 99 / 100]"

definition ex_cfg :: config where
  "ex_cfg = \<lparr>run_dir = ''.'', G_E_opt_args = ex_opt_args, D_opt_args = ex_opt_args,
      augment = False, num_metrics = 0, num_gpus = 1, minibatch_size = 32, minibatch_gpu = 4,
      G_smoothing_kimg = 10, G_smoothing_rampup = None, minibatch_repeats = 4,
      lazy_regularization = True, G_reg_interval = 4, D_reg_interval = 16,
      total_kimg = 25000, kimg_per_tick = 4, image_snapshot_ticks = Some 50,
      network_snapshot_ticks = Some 50, resume_pkl = None, abort_fn = None,
      progress_fn = False\<rparr>"

section \<open>Auxiliary notions for the properties of the training script\<close>

text \<open>The events of one round of the first and of the second loop of the slow path.\<close>

definition G_round_events :: "bool \<Rightarrow> 'n event list" where
  "G_round_events run_G_reg =
     Tf_run [G_train_op] None # (if run_G_reg then [Tf_run [G_reg_op] None] else [])"

definition D_round_events :: "bool \<Rightarrow> 'n event list" where
  "D_round_events run_D_reg =
     [Tf_run [data_fetch_op] None, Tf_run [D_train_op] None]
     @ (if run_D_reg then [Tf_run [D_reg_op] None] else [])"

text \<open>The values fed for \<open>Gs_beta_in\<close> in the runs of \<open>Gs_update_op\<close> on a trace, in order.\<close>

fun Gs_updates :: "'n event list \<Rightarrow> real option list" where
  "Gs_updates [] = []"
| "Gs_updates (Tf_run ops feed # es) =
     (if Gs_update_op \<in> set ops then feed # Gs_updates es else Gs_updates es)"
| "Gs_updates (e # es) = Gs_updates es"

text \<open>
  The image files, the pickle files and the metric evaluations on a trace, in order.
\<close>

fun png_writes :: "'n event list \<Rightarrow> string list" where
  "png_writes [] = []"
| "png_writes (Save_png p # es) = p # png_writes es"
| "png_writes (e # es) = png_writes es"

fun pickle_writes :: "'n event list \<Rightarrow> (string \<times> 'n snapshot) list" where
  "pickle_writes [] = []"
| "pickle_writes (Pickle_dump p s # es) = (p, s) # pickle_writes es"
| "pickle_writes (e # es) = pickle_writes es"

fun metric_runs :: "'n event list \<Rightarrow> string list" where
  "metric_runs [] = []"
| "metric_runs (Metric_run p # es) = p # metric_runs es"
| "metric_runs (e # es) = metric_runs es"

text \<open>
  The events that the training loop can add to the trace under a configuration:
  image files only when \<open>image_snapshot_ticks\<close> is set, and then named as a periodic
  grid; pickle files and metric evaluations only when \<open>network_snapshot_ticks\<close> is set,
  and then on a snapshot file of the run directory.
\<close>

fun loop_event :: "config \<Rightarrow> 'n event \<Rightarrow> bool" where
  "loop_event cfg (Tf_run ops feed) = True"
| "loop_event cfg (Aug_run_validation m) = True"
| "loop_event cfg (Aug_tune m) = True"
| "loop_event cfg (Progress_fn a b) = True"
| "loop_event cfg Gs_run = True"
| "loop_event cfg Metric_update = True"
| "loop_event cfg (Save_summaries m) = True"
| "loop_event cfg (Save_png p) = (image_snapshot_ticks cfg \<noteq> None \<and> (\<exists>k. p = fakes_name cfg k))"
| "loop_event cfg (Pickle_dump p s) =
     (network_snapshot_ticks cfg \<noteq> None \<and> (\<exists>k. p = snapshot_name cfg k))"
| "loop_event cfg (Metric_run p) =
     (network_snapshot_ticks cfg \<noteq> None \<and> (\<exists>k. p = snapshot_name cfg k))"
| "loop_event cfg e = False"

text \<open>
  A later state of the loop extends an earlier one: the trace grows by loop events,
  every pickle file written is on the disk with the content of its last write, and the
  rest of the disk is unchanged.
\<close>

definition extends :: "config \<Rightarrow> 'n loop_state \<Rightarrow> 'n loop_state \<Rightarrow> bool" where
  "extends cfg st st' \<longleftrightarrow>
     (\<exists>es. trace st' = trace st @ es \<and> list_all (loop_event cfg) es
        \<and> disk st' = (disk st) ++ map_of (rev (pickle_writes es)))"

text \<open>A short run without periodic snapshots: two passes of 500 images reach 1 kimg.\<close>

definition ex_small :: config where
  "ex_small = ex_cfg\<lparr>minibatch_size := 500, minibatch_gpu := 500, minibatch_repeats := 1,
      total_kimg := 1, image_snapshot_ticks := None, network_snapshot_ticks := None\<rparr>"

text \<open>A run of zero thousand images, with one fast-path minibatch in each pass.\<close>

definition ex_zero :: config where
  "ex_zero = ex_cfg\<lparr>minibatch_gpu := 32, minibatch_repeats := 1, total_kimg := 0\<rparr>"

text \<open>How many session runs on a trace include a given operation.\<close>

fun runs_of :: "train_op \<Rightarrow> 'n event list \<Rightarrow> nat" where
  "runs_of x [] = 0"
| "runs_of x (Tf_run ops feed # es) = (if x \<in> set ops then 1 else 0) + runs_of x es"
| "runs_of x (e # es) = runs_of x es"

text \<open>The default configuration with an empty minibatch.\<close>

definition ex_empty :: config where
  "ex_empty = ex_cfg\<lparr>minibatch_size := 0\<rparr>"

text \<open>A loss with an optional regularization term added (\<open>if reg is not None: loss += reg\<close>).\<close>

fun plus_reg :: "loss \<Rightarrow> loss option \<Rightarrow> loss" where
  "plus_reg l None = l"
| "plus_reg l (Some r) = Plus l r"

text \<open>The factor \<open>mb_ratio\<close> of a regularization interval.\<close>

definition mb_ratio_of :: "int \<Rightarrow> real" where
  "mb_ratio_of reg_interval = of_int reg_interval / of_int (reg_interval + 1)"

section \<open>Properties of save\_image\_grid\<close>

lemma mixed_radix_less:
  fixes a b A B :: nat
  assumes "a < A" "b < B"
  shows "a * B + b < A * B"
proof -
  have "a * B + b < a * B + B" using assms by simp
  also have "\<dots> = (Suc a) * B" by simp
  also have "\<dots> \<le> A * B" using assms by (intro mult_le_mono1) simp
  finally show ?thesis .
qed

lemma div_less_of_less_mult:
  fixes r gh H :: nat
  assumes "r < gh * H"
  shows "r div H < gh"
  using assms by (simp add: less_mult_imp_div_less)

lemma grid_source_index_flat:
  fixes gw W C H r q c :: nat
  assumes "q < gw * W" "c < C"
  shows "grid_source_index gw C H W ((r * (gw * W) + q) * C + c)
       = ((((r div H) * gw + q div W) * C + c) * H + r mod H) * W + q mod W"
proof -
  let ?k = "(r * (gw * W) + q) * C + c"
  from assms have 1: "?k mod C = c" by simp
  from assms have 2: "?k div C = r * (gw * W) + q" by simp
  from assms have 3: "(r * (gw * W) + q) mod (gw * W) = q" by simp
  from assms have "gw * W \<noteq> 0" by (auto intro: Nat.gr0I)
  then have "(q + r * (gw * W)) div (gw * W) = r + q div (gw * W)" by simp
  with assms have 4: "(r * (gw * W) + q) div (gw * W) = r" by (simp add: add.commute)
  show ?thesis unfolding grid_source_index_def Let_def 1 2 3 4 ..
qed

lemma grid_source_index_bound:
  fixes gw gh W C H r q c :: nat
  assumes "r < gh * H" "q < gw * W" "c < C"
  shows "((((r div H) * gw + q div W) * C + c) * H + r mod H) * W + q mod W < gh * gw * C * H * W"
proof -
  from assms have H: "0 < H" and W: "0 < W" by (auto intro: Nat.gr0I)
  have a: "r div H < gh" using assms(1) by (rule div_less_of_less_mult)
  have b: "q div W < gw" using assms(2) by (rule div_less_of_less_mult)
  have n: "(r div H) * gw + q div W < gh * gw" using a b by (rule mixed_radix_less)
  have nc: "((r div H) * gw + q div W) * C + c < gh * gw * C" using n assms(3) by (rule mixed_radix_less)
  have y: "r mod H < H" using H by simp
  have x: "q mod W < W" using W by simp
  have "(((r div H) * gw + q div W) * C + c) * H + r mod H < gh * gw * C * H"
    using nc y by (rule mixed_radix_less)
  then show ?thesis using x by (rule mixed_radix_less)
qed

lemma uint_to_uint8: "uint (to_uint8 v) = clip_byte (rint v)"
proof -
  have "0 \<le> clip_byte (rint v)" "clip_byte (rint v) < 256"
    by (simp_all add: clip_byte_def)
  then show ?thesis
    unfolding to_uint8_def by (simp add: uint_word_of_int take_bit_eq_mod)
qed

lemma rint_nearest: "\<bar>of_int (rint v) - v\<bar> \<le> 1 / 2"
  unfolding rint_def Let_def by (auto simp: abs_le_iff)

lemma rint_tie_even: "rint (of_int (2 * n) + 1 / 2) = 2 * n"
proof -
  have "\<lfloor>(of_int (2 * n) + 1 / 2 :: real)\<rfloor> = 2 * n" by linarith
  then show ?thesis by (simp add: rint_def Let_def)
qed

text \<open>
  With three channels the function writes one \<open>RGB\<close> image of height \<open>gh * H\<close> and
  width \<open>gw * W\<close>, whose byte at row \<open>r\<close>, column \<open>q\<close>, channel \<open>c\<close> comes from the pixel
  at row \<open>r mod H\<close>, column \<open>q mod W\<close>, channel \<open>c\<close> of image \<open>(r div H) * gw + q div W\<close>,
  scaled, rounded to the nearest integer and clipped to \<open>[0, 255]\<close>.
\<close>

lemma save_image_grid_rgb:
  assumes wf: "wf_ndarray4 images"
    and sh: "shape images = (N, 3, H, W)"
    and n: "N = gw * gh"
    and d: "f64 (hi - lo) \<noteq> 0"
  shows "\<exists>img. save_image_grid f32 f64 images filename (lo, hi) (gw, gh) = Inr [(filename, img)]
      \<and> height img = gh * H \<and> width img = gw * W \<and> channels img = 3 \<and> mode img = ''RGB''
      \<and> length (bytes img) = gh * H * (gw * W) * 3
      \<and> (\<forall>r<gh * H. \<forall>q<gw * W. \<forall>c<3.
            uint (bytes img ! ((r * (gw * W) + q) * 3 + c))
            = min 255 (max (rint (scale_pixel f32 f64 lo hi (elems images !
                 (((((r div H) * gw + q div W) * 3 + c) * H + r mod H) * W + q mod W)))) 0))"
proof -
  let ?px = "map to_uint8 (map (scale_pixel f32 f64 lo hi) (elems images))"
  let ?img = "\<lparr>height = gh * H, width = gw * W, channels = 3, mode = ''RGB'',
       bytes = map (\<lambda>k. ?px ! grid_source_index gw 3 H W k) [0 ..< gh * H * (gw * W) * 3]\<rparr>"
  from wf sh have len: "length (elems images) = N * 3 * H * W"
    by (simp add: wf_ndarray4_def)
  have eq: "save_image_grid f32 f64 images filename (lo, hi) (gw, gh) = Inr [(filename, ?img)]"
    using d sh n
    by (simp add: save_image_grid_def Let_def mult.commute mode_of_channels_def fromarray_ndmax_def)
  have px: "uint (bytes ?img ! ((r * (gw * W) + q) * 3 + c))
            = min 255 (max (rint (scale_pixel f32 f64 lo hi (elems images !
                 (((((r div H) * gw + q div W) * 3 + c) * H + r mod H) * W + q mod W)))) 0)"
    if r: "r < gh * H" and q: "q < gw * W" and c: "c < 3" for r q c
  proof -
    define K where "K = (r * (gw * W) + q) * 3 + c"
    define I where "I = ((((r div H) * gw + q div W) * 3 + c) * H + r mod H) * W + q mod W"
    have g: "grid_source_index gw 3 H W K = I"
      unfolding K_def I_def by (rule grid_source_index_flat [OF q c])
    have "r * (gw * W) + q < gh * H * (gw * W)" using r q by (rule mixed_radix_less)
    then have k: "K < gh * H * (gw * W) * 3"
      unfolding K_def using c by (rule mixed_radix_less)
    have "I < gh * gw * 3 * H * W"
      unfolding I_def using r q c by (rule grid_source_index_bound)
    also have "\<dots> = length (elems images)" using len n by (simp add: mult.commute)
    finally have i: "I < length (elems images)" .
    from k have "bytes ?img ! K = ?px ! grid_source_index gw 3 H W K"
      by (simp del: upt_Suc)
    also have "\<dots> = to_uint8 (scale_pixel f32 f64 lo hi (elems images ! I))"
      unfolding g using i by simp
    finally have "uint (bytes ?img ! K)
        = min 255 (max (rint (scale_pixel f32 f64 lo hi (elems images ! I))) 0)"
      by (simp add: uint_to_uint8 clip_byte_def)
    then show ?thesis unfolding K_def I_def .
  qed
  show ?thesis
    by (rule exI [of _ ?img]) (use eq px in simp)
qed

text \<open>
  An RGB pixel with exact arithmetic and the range \<open>[-1, 1]\<close>: the value 0 is scaled to
  127.5 and rounds to the even 128, the value 2 is clipped to 255, the value -3 to 0.
\<close>

lemma save_image_grid_rgb_example:
  "\<exists>img. save_image_grid (\<lambda>x. x) (\<lambda>x. x) \<lparr>shape = (1, 3, 1, 1), elems = [0, 2, - 3]\<rparr>
             ''fakes_init.png'' (- 1, 1) (1, 1) = Inr [(''fakes_init.png'', img)]
      \<and> height img = 1 \<and> width img = 1 \<and> channels img = 3 \<and> mode img = ''RGB''
      \<and> map uint (bytes img) = [128, 255, 0]"
proof -
  have r: "rint (255 / 2) = 128" "rint (765 / 2) = 382" "rint (- 255) = - 255"
    by (simp_all add: rint_def Let_def)
  have u: "[0 ..< 3] = [0, 1, 2]" by (simp add: upt_rec)
  show ?thesis
    using r
    by (simp add: save_image_grid_def Let_def mode_of_channels_def fromarray_ndmax_def
        scale_pixel_def grid_source_index_def u uint_to_uint8 clip_byte_def)
qed

text \<open>
  Claim C7, at a grayscale input. For a well-formed array of \<open>gw * gh\<close> images of shape
  \<open>(1, H, W)\<close> and a range with \<open>lo \<noteq> hi\<close>, the mode looked up is \<open>L\<close>, \<open>fromarray\<close> is
  given an array of three dimensions where \<open>L\<close> allows two, and \<open>save_image_grid\<close>
  raises \<open>ValueError\<close>: no file is written.
\<close>

theorem save_image_grid_grayscale:
  assumes wf: "wf_ndarray4 images"
    and sh: "shape images = (N, 1, H, W)"
    and n: "N = gw * gh"
    and d: "f64 (hi - lo) \<noteq> 0"
  shows "mode_of_channels 1 = Inr ''L'' \<and> fromarray_ndmax ''L'' = 2
       \<and> save_image_grid f32 f64 images filename (lo, hi) (gw, gh) = Inl ValueError"
  using sh n d
  by (simp add: save_image_grid_def Let_def mult.commute mode_of_channels_def fromarray_ndmax_def)

theorem save_image_grid_grayscale_witness:
  "wf_ndarray4 \<lparr>shape = (2, 1, 1, 1), elems = [0, 1]\<rparr>
   \<and> shape \<lparr>shape = (2, 1, 1, 1), elems = [0, 1]\<rparr> = (2 * 1, 1, 1, 1)
   \<and> save_image_grid (\<lambda>x. x) (\<lambda>x. x) \<lparr>shape = (2, 1, 1, 1), elems = [0, 1]\<rparr>
        ''fakes_init.png'' (- 1, 1) (2, 1) = Inl ValueError"
proof -
  let ?a = "\<lparr>shape = (2, 1, 1, 1), elems = [0, 1]\<rparr>"
  have wf: "wf_ndarray4 ?a" by (simp add: wf_ndarray4_def)
  have sh: "shape ?a = (2, 1, 1, 1)" by simp
  have n: "(2::nat) = 2 * 1" by simp
  have d: "(\<lambda>x. x) ((1::real) - (- 1)) \<noteq> 0" by simp
  from save_image_grid_grayscale [of ?a 2 1 1 2 1 "\<lambda>x. x" 1 "- 1" "\<lambda>x. x" "''fakes_init.png''",
      OF wf sh n d] wf
  show ?thesis by simp
qed

section \<open>Properties of shrink.py\<close>

lemma shrink_loop_Cons_cases:
  assumes "shrink_loop resample known_ext folder w h (f # rest) st = (st', err)"
  shows "(st' = st\<lparr>opened := opened st @ [new_file folder f]\<rparr> \<and> err \<noteq> None) \<or>
     (\<exists>im im'. files st (new_file folder f) = Some (Image_file im) \<and> im_size im' = (w, h) \<and>
        shrink_loop resample known_ext folder w h rest
          (st\<lparr>opened := opened st @ [new_file folder f],
              files := (files st)(new_file folder f \<mapsto> Image_file im'),
              saved := saved st @ [(new_file folder f, im')]\<rparr>) = (st', err))"
  using assms
  by (auto simp: Let_def Image_open_def Image_save_def resize_def
           split: sum.splits option.splits fnode.splits if_splits)







lemma shrink_loop_holds_saved:
  "shrink_loop resample known_ext folder w h entries st = (st', err) \<Longrightarrow>
   holds_saved st \<Longrightarrow> holds_saved st'"
proof (induction entries arbitrary: st)
  case Nil then show ?case by simp
next
  case (Cons f rest)
  from shrink_loop_Cons_cases[OF Cons.prems(1)] show ?case
  proof (elim disjE exE conjE)
    assume "st' = st\<lparr>opened := opened st @ [new_file folder f]\<rparr>" "err \<noteq> None"
    with Cons.prems(2) show ?thesis by (simp add: holds_saved_def)
  next
    fix im im'
    assume r: "shrink_loop resample known_ext folder w h rest
          (st\<lparr>opened := opened st @ [new_file folder f],
              files := (files st)(new_file folder f \<mapsto> Image_file im'),
              saved := saved st @ [(new_file folder f, im')]\<rparr>) = (st', err)"
    show ?thesis
      by (rule Cons.IH[OF r]) (use Cons.prems(2) in \<open>force simp: holds_saved_def\<close>)
  qed
qed

lemma shrink_loop_sizes:
  "shrink_loop resample known_ext folder w h entries st = (st', err) \<Longrightarrow>
   \<forall>x\<in>set (saved st). im_size (snd x) = (w, h) \<Longrightarrow>
   \<forall>x\<in>set (saved st'). im_size (snd x) = (w, h)"
proof (induction entries arbitrary: st)
  case Nil then show ?case by simp
next
  case (Cons f rest)
  from shrink_loop_Cons_cases[OF Cons.prems(1)] show ?case
  proof (elim disjE exE conjE)
    assume "st' = st\<lparr>opened := opened st @ [new_file folder f]\<rparr>" "err \<noteq> None"
    with Cons.prems(2) show ?thesis by simp
  next
    fix im im'
    assume r: "shrink_loop resample known_ext folder w h rest
          (st\<lparr>opened := opened st @ [new_file folder f],
              files := (files st)(new_file folder f \<mapsto> Image_file im'),
              saved := saved st @ [(new_file folder f, im')]\<rparr>) = (st', err)"
      and s: "im_size im' = (w, h)"
    show ?thesis
      by (rule Cons.IH[OF r]) (use Cons.prems(2) s in auto)
  qed
qed




lemma ex_run:
  "shrink (\<lambda>im sz. im_pixels im) (\<lambda>p. True) (Inr [''a.png'', ''b.png'']) ''d'' 32 16 ex_fs
     = (ex_shrunk, None)"
  by (simp add: shrink_def ex_fs_def ex_shrunk_def Let_def Image_open_def Image_save_def
        resize_def new_file_def)


text \<open>
  Claim C4. Every image passed to \<open>save\<close> has the size \<open>(w, h)\<close> that was entered, and so
  has the image file found afterwards at every path that was saved to, whatever the
  file system held before.
\<close>

theorem shrink_target_size:
  assumes run: "shrink resample known_ext listing folder w h fs = (st', err)"
  shows "(\<forall>x\<in>set (saved st'). im_size (snd x) = (w, h))
       \<and> (\<forall>p\<in>fst ` set (saved st').
             \<exists>im. files st' p = Some (Image_file im) \<and> im_size im = (w, h))"
proof (cases listing)
  case (Inl e)
  with run show ?thesis by (auto simp: shrink_def)
next
  case (Inr entries)
  let ?st0 = "\<lparr>files = fs, opened = [], saved = []\<rparr> :: 'a shrink_state"
  from run Inr have l: "shrink_loop resample known_ext folder w h entries ?st0 = (st', err)"
    by (simp add: shrink_def)
  have h0: "holds_saved ?st0" by (simp add: holds_saved_def)
  have s: "\<forall>x\<in>set (saved st'). im_size (snd x) = (w, h)"
    by (rule shrink_loop_sizes [OF l]) simp
  moreover have "\<exists>im. files st' p = Some (Image_file im) \<and> im_size im = (w, h)"
    if "p \<in> fst ` set (saved st')" for p
  proof -
    from shrink_loop_holds_saved [OF l h0] that
    obtain im where "files st' p = Some (Image_file im)" "(p, im) \<in> set (saved st')"
      unfolding holds_saved_def by blast
    with s show ?thesis by force
  qed
  ultimately show ?thesis by blast
qed

theorem shrink_target_size_witness:
  "shrink (\<lambda>im sz. im_pixels im) (\<lambda>p. True) (Inr [''a.png'', ''b.png'']) ''d'' 32 16 ex_fs
     = (ex_shrunk, None)
   \<and> length (saved ex_shrunk) = 2
   \<and> im_size (snd (saved ex_shrunk ! 0)) = (32, 16)
   \<and> im_size (snd (saved ex_shrunk ! 1)) = (32, 16)
   \<and> (\<exists>im. files ex_shrunk (new_file ''d'' ''b.png'') = Some (Image_file im)
           \<and> im_size im = (32, 16))"
proof -
  note r = shrink_target_size [OF ex_run]
  have m: "new_file ''d'' ''b.png'' \<in> fst ` set (saved ex_shrunk)"
    by (simp add: ex_shrunk_def new_file_def)
  have l: "length (saved ex_shrunk) = 2" by (simp add: ex_shrunk_def)
  then have "saved ex_shrunk ! 0 \<in> set (saved ex_shrunk)" "saved ex_shrunk ! 1 \<in> set (saved ex_shrunk)"
    by simp_all
  with r m l show ?thesis
    using ex_run by blast
qed

section \<open>Properties of the training script: the assertion\<close>

lemma py_mod_not_assertion: "py_mod a b = Inl e \<Longrightarrow> e = ZeroDivisionError"
  by (simp add: py_mod_def split: if_splits)

lemma reg_due_error: "reg_due cfg c i = Inl e \<Longrightarrow> e = ZeroDivisionError"
  by (auto simp: reg_due_def py_mod_def split: if_splits)

lemma snapshot_due_error: "snapshot_due dn t i = Inl e \<Longrightarrow> e = ZeroDivisionError"
  by (auto simp: snapshot_due_def py_mod_def split: if_splits)

lemma range_len_error: "range_len a b = Inl e \<Longrightarrow> e = ValueError"
  by (auto simp: range_len_def split: if_splits)

lemma minibatch_iteration_error:
  "minibatch_iteration fw cfg b st = (st', Some e) \<Longrightarrow> e \<noteq> AssertionError"
  by (auto simp: minibatch_iteration_def Let_def split: sum.splits
           dest: reg_due_error range_len_error)

lemma repeat_loop_error:
  "repeat_loop fw cfg b n st = (st', Some e) \<Longrightarrow> e \<noteq> AssertionError"
proof (induction n arbitrary: st)
  case 0 then show ?case by simp
next
  case (Suc n)
  then show ?case
    by (auto split: prod.splits option.splits dest: minibatch_iteration_error)
qed

lemma image_snapshot_error:
  "image_snapshot cfg dn st = (st', Some e) \<Longrightarrow> e \<noteq> AssertionError"
  by (auto simp: image_snapshot_def split: option.splits sum.splits if_splits
           dest: snapshot_due_error)

lemma network_snapshot_error:
  "network_snapshot cfg dn st = (st', Some e) \<Longrightarrow> e \<noteq> AssertionError"
  by (auto simp: network_snapshot_def Let_def split: option.splits sum.splits if_splits
           dest: snapshot_due_error)

lemma maintenance_error:
  "maintenance cfg dn st = (st', Some e) \<Longrightarrow> e \<noteq> AssertionError"
  by (auto simp: maintenance_def Let_def split: prod.splits option.splits if_splits
           dest: image_snapshot_error network_snapshot_error)

lemma loop_pass_error:
  "loop_pass fw cfg st = (st', Inl e) \<Longrightarrow> e \<noteq> AssertionError"
  by (auto simp: loop_pass_def Let_def split: prod.splits option.splits if_splits
           dest: repeat_loop_error maintenance_error)

lemma training_while_error:
  "training_while fw cfg fuel st = (st', Raised e, n) \<Longrightarrow> e \<noteq> AssertionError"
proof (induction fuel arbitrary: st n)
  case 0 then show ?case by simp
next
  case (Suc fuel)
  then show ?case
    by (auto split: prod.splits sum.splits if_splits dest: loop_pass_error)
qed

lemma rescale_opt_args_error:
  "rescale_opt_args cfg i args = Inl e \<Longrightarrow> e \<noteq> AssertionError"
  by (auto simp: rescale_opt_args_def py_floordiv_def Let_def split: if_splits option.splits sum.splits)

lemma resume_networks_error:
  "resume_networks fw dsk r ns = Inl e \<Longrightarrow> e \<noteq> AssertionError"
  by (auto simp: resume_networks_def split: option.splits)

lemma prepare_assertion:
  assumes "prepare fw cfg dsk = (st, err)"
  shows "(if num_gpus cfg * minibatch_gpu cfg = 0
          then err = Some ZeroDivisionError \<and> st = start_state fw dsk
          else (err = Some AssertionError
                  \<longleftrightarrow> \<not> num_gpus cfg * minibatch_gpu cfg dvd minibatch_size cfg)
               \<and> (err = Some AssertionError \<longrightarrow> st = start_state fw dsk))"
proof (cases "num_gpus cfg * minibatch_gpu cfg = 0")
  case True
  with assms show ?thesis by (auto simp: prepare_def py_mod_def Let_def)
next
  case nz: False
  show ?thesis
  proof (cases "minibatch_size cfg mod (num_gpus cfg * minibatch_gpu cfg) = 0")
    case False
    with nz assms show ?thesis
      by (auto simp: prepare_def py_mod_def Let_def dvd_eq_mod_eq_0)
  next
    case True
    with nz assms have "err \<noteq> Some AssertionError"
      by (auto simp: prepare_def py_mod_def Let_def
          split: sum.splits dest: resume_networks_error rescale_opt_args_error)
    with nz True show ?thesis by (auto simp: dvd_eq_mod_eq_0)
  qed
qed

text \<open>
  Claim C5, as stated: \<open>training_loop\<close> raises \<open>AssertionError\<close> exactly when
  \<open>minibatch_size\<close> is not divisible by \<open>num_gpus * minibatch_gpu\<close>. It fails for
  \<open>num_gpus = 0\<close> and \<open>minibatch_size = 32\<close>: 32 is not divisible by 0, and the remainder
  in the assertion raises \<open>ZeroDivisionError\<close> instead.
\<close>

theorem training_loop_assertion_counterexample:
  "\<not> (fst (snd (training_loop ex_fw (ex_cfg\<lparr>num_gpus := 0\<rparr>) Map.empty 1)) = Raised AssertionError
        \<longleftrightarrow> \<not> num_gpus (ex_cfg\<lparr>num_gpus := 0\<rparr>) * minibatch_gpu (ex_cfg\<lparr>num_gpus := 0\<rparr>)
                dvd minibatch_size (ex_cfg\<lparr>num_gpus := 0\<rparr>))"
  by (simp add: training_loop_def prepare_def py_mod_def ex_cfg_def Let_def)

text \<open>
  Claim C5, amended. When \<open>num_gpus * minibatch_gpu\<close> is not zero, \<open>training_loop\<close>
  raises \<open>AssertionError\<close> exactly when \<open>minibatch_size\<close> is not divisible by it, and then
  nothing has happened: the trace is empty, the disk is as it was and no pass of the
  loop was started. When the product is zero, the assertion raises
  \<open>ZeroDivisionError\<close>, equally before anything has happened.
\<close>

theorem training_loop_assertion:
  assumes run: "training_loop fw cfg dsk fuel = (st, out, n)"
  shows "if num_gpus cfg * minibatch_gpu cfg = 0
         then out = Raised ZeroDivisionError \<and> trace st = [] \<and> disk st = dsk \<and> n = 0
         else (out = Raised AssertionError
                 \<longleftrightarrow> \<not> num_gpus cfg * minibatch_gpu cfg dvd minibatch_size cfg)
              \<and> (out = Raised AssertionError \<longrightarrow> trace st = [] \<and> disk st = dsk \<and> n = 0)"
proof -
  obtain st0 err where p: "prepare fw cfg dsk = (st0, err)" by (cases "prepare fw cfg dsk")
  note pa = prepare_assertion [OF p]
  show ?thesis
  proof (cases err)
    case (Some e)
    with run p have r: "st = st0" "out = Raised e" "n = 0"
      by (simp_all add: training_loop_def)
    from pa Some r show ?thesis
      by (auto simp: start_state_def split: if_splits)
  next
    case None
    with pa have nz: "num_gpus cfg * minibatch_gpu cfg \<noteq> 0"
      and dv: "num_gpus cfg * minibatch_gpu cfg dvd minibatch_size cfg"
      by (auto split: if_splits)
    obtain st1 out1 n1 where w: "training_while fw cfg fuel st0 = (st1, out1, n1)"
      by (cases "training_while fw cfg fuel st0")
    from run p None w have "out = out1"
      by (simp add: training_loop_def split: if_splits)
    with w have "out \<noteq> Raised AssertionError"
      using training_while_error [of fw cfg fuel st0 st1 AssertionError n1] by auto
    with nz dv show ?thesis by simp
  qed
qed

theorem training_loop_assertion_witness:
  "num_gpus (ex_cfg\<lparr>minibatch_size := 30\<rparr>) * minibatch_gpu (ex_cfg\<lparr>minibatch_size := 30\<rparr>) = 4
   \<and> minibatch_size (ex_cfg\<lparr>minibatch_size := 30\<rparr>) mod 4 = 2
   \<and> fst (snd (training_loop ex_fw (ex_cfg\<lparr>minibatch_size := 30\<rparr>) Map.empty 5)) = Raised AssertionError
   \<and> trace (fst (training_loop ex_fw (ex_cfg\<lparr>minibatch_size := 30\<rparr>) Map.empty 5)) = []
   \<and> dom (disk (fst (training_loop ex_fw (ex_cfg\<lparr>minibatch_size := 30\<rparr>) Map.empty 5))) = {}"
proof -
  let ?c = "ex_cfg\<lparr>minibatch_size := 30\<rparr>"
  let ?r = "training_loop ex_fw ?c Map.empty 5"
  have a: "num_gpus ?c * minibatch_gpu ?c = 4" "minibatch_size ?c = 30"
    by (simp_all add: ex_cfg_def)
  have nd: "\<not> (4::int) dvd 30" by presburger
  have "?r = (fst ?r, fst (snd ?r), snd (snd ?r))" by simp
  note t = training_loop_assertion [OF this, unfolded a]
  have z: "((4::int) = 0) = False" by simp
  from t [unfolded z if_False] have e: "fst (snd ?r) = Raised AssertionError \<longleftrightarrow> \<not> (4::int) dvd 30"
    and f: "fst (snd ?r) = Raised AssertionError \<longrightarrow>
       trace (fst ?r) = [] \<and> disk (fst ?r) = Map.empty \<and> snd (snd ?r) = 0"
    by blast+
  from e nd have o: "fst (snd ?r) = Raised AssertionError" by blast
  with f have "trace (fst ?r) = []" "disk (fst ?r) = Map.empty" by blast+
  then have "trace (fst ?r) = []" "dom (disk (fst ?r)) = {}" by simp_all
  moreover have "minibatch_size ?c mod 4 = 2" by (simp add: ex_cfg_def)
  ultimately show ?thesis using a(1) o by blast
qed

section \<open>Properties of the training script: one minibatch\<close>

lemma G_rounds_trace:
  "trace (G_rounds fw r n st) = trace st @ concat (replicate n (G_round_events r))"
  by (induction n arbitrary: st) (simp_all add: Let_def tflib_run_def G_round_events_def)

lemma D_rounds_trace:
  "trace (D_rounds fw r n st) = trace st @ concat (replicate n (D_round_events r))"
  by (induction n arbitrary: st) (simp_all add: Let_def tflib_run_def D_round_events_def)

lemma fast_path_trace:
  "trace (fast_path fw b rG rD st) = trace st
     @ [Tf_run [G_train_op, data_fetch_op] None] @ (if rG then [Tf_run [G_reg_op] None] else [])
     @ [Tf_run [D_train_op, Gs_update_op] (Some b)] @ (if rD then [Tf_run [D_reg_op] None] else [])"
  by (simp add: fast_path_def Let_def tflib_run_def)

lemma slow_path_trace:
  "trace (slow_path fw b n rG rD st) = trace st
     @ concat (replicate n (G_round_events rG)) @ [Tf_run [Gs_update_op] (Some b)]
     @ concat (replicate n (D_round_events rD))"
  by (simp add: slow_path_def Let_def tflib_run_def G_rounds_trace D_rounds_trace)





section \<open>Properties of the training script: the moving average\<close>



lemma Gs_updates_replicate_other [simp]:
  "Gs_updates (replicate n (Metric_run p)) = []" "Gs_updates (replicate n Metric_update) = []"
  "Gs_updates (replicate n Metric_configure) = []"
  by (induction n) simp_all









lemmas run_defs =
  training_loop_def prepare_def start_state_def initial_nets_def resume_networks_def
  rescale_opt_args_def py_floordiv_def py_mod_def range_len_def register_gpu_def gpu_count_def
  loop_pass_def minibatch_iteration_def reg_due_def fast_path_def slow_path_def tflib_run_def
  check_done_def maintenance_def image_snapshot_def network_snapshot_def snapshot_due_def
  emit_def Let_def


section \<open>Properties of the training script: what the loop adds to the trace\<close>

lemma pickle_writes_append: "pickle_writes (xs @ ys) = pickle_writes xs @ pickle_writes ys"
  by (induction xs rule: pickle_writes.induct) simp_all

lemma png_writes_append: "png_writes (xs @ ys) = png_writes xs @ png_writes ys"
  by (induction xs rule: png_writes.induct) simp_all

lemma metric_runs_append: "metric_runs (xs @ ys) = metric_runs xs @ metric_runs ys"
  by (induction xs rule: metric_runs.induct) simp_all

lemma extends_refl: "extends cfg st st"
  by (simp add: extends_def)

lemma extends_trans:
  assumes "extends cfg a b" "extends cfg b c"
  shows "extends cfg a c"
proof -
  from assms(1) obtain es where 1: "trace b = trace a @ es" "list_all (loop_event cfg) es"
    "disk b = (disk a) ++ map_of (rev (pickle_writes es))" by (auto simp: extends_def)
  from assms(2) obtain fs where 2: "trace c = trace b @ fs" "list_all (loop_event cfg) fs"
    "disk c = (disk b) ++ map_of (rev (pickle_writes fs))" by (auto simp: extends_def)
  have "disk c = (disk a) ++ map_of (rev (pickle_writes (es @ fs)))"
    using 1(3) 2(3) by (simp add: pickle_writes_append)
  with 1 2 show ?thesis
    unfolding extends_def by (intro exI [of _ "es @ fs"]) simp
qed

lemma extends_emit:
  assumes "list_all (loop_event cfg) es" "pickle_writes es = []"
  shows "extends cfg st (emit es st)"
  using assms unfolding extends_def emit_def by (intro exI [of _ es]) simp

lemma extends_tflib_run: "extends cfg st (tflib_run fw ops feed st)"
  unfolding extends_def tflib_run_def by (intro exI [of _ "[Tf_run ops feed]"]) simp

lemma extends_G_rounds: "extends cfg st (G_rounds fw r n st)"
proof (induction n arbitrary: st)
  case 0 show ?case by (simp add: extends_refl)
next
  case (Suc n)
  have "extends cfg st (if r then tflib_run fw [G_reg_op] None (tflib_run fw [G_train_op] None st)
          else tflib_run fw [G_train_op] None st)"
    by (auto intro: extends_trans extends_tflib_run)
  then show ?case using Suc.IH by (auto simp: Let_def intro: extends_trans)
qed

lemma extends_D_rounds: "extends cfg st (D_rounds fw r n st)"
proof (induction n arbitrary: st)
  case 0 show ?case by (simp add: extends_refl)
next
  case (Suc n)
  let ?s2 = "tflib_run fw [D_train_op] None (tflib_run fw [data_fetch_op] None st)"
  have "extends cfg st ?s2" by (blast intro: extends_trans extends_tflib_run)
  then have "extends cfg st (if r then tflib_run fw [D_reg_op] None ?s2 else ?s2)"
    by (auto intro: extends_trans extends_tflib_run)
  then show ?case using Suc.IH by (auto simp: Let_def intro: extends_trans)
qed

lemma extends_fast_path: "extends cfg st (fast_path fw b rG rD st)"
  unfolding fast_path_def Let_def
  by (auto intro!: extends_tflib_run intro: extends_trans [OF _ extends_tflib_run])

lemma extends_slow_path: "extends cfg st (slow_path fw b n rG rD st)"
  unfolding slow_path_def Let_def
  by (blast intro: extends_trans extends_tflib_run extends_G_rounds extends_D_rounds)

lemma extends_counters:
  "extends cfg (st\<lparr>cur_nimg := a, running_mb_counter := b\<rparr>) st' \<Longrightarrow> extends cfg st st'"
  by (simp add: extends_def)

lemma extends_minibatch_iteration:
  assumes "minibatch_iteration fw cfg b st = (st', err)"
  shows "extends cfg st st'"
proof (cases err)
  case (Some e)
  with assms have "st' = st"
    by (auto simp: minibatch_iteration_def Let_def split: sum.splits)
  then show ?thesis by (simp add: extends_refl)
next
  case None
  with assms obtain n rG rD where
    s: "st' = (let st1 = st\<lparr>cur_nimg := cur_nimg st + minibatch_size cfg,
                        running_mb_counter := running_mb_counter st + 1\<rparr>;
               st2 = (if n = 1 then fast_path fw b rG rD st1 else slow_path fw b n rG rD st1)
           in if augment cfg then emit [Aug_run_validation (minibatch_size cfg)] st2 else st2)"
    by (auto simp: minibatch_iteration_def Let_def split: sum.splits)
  show ?thesis unfolding s Let_def
    by (rule extends_counters)
      (auto intro!: extends_fast_path extends_slow_path
        intro: extends_trans [OF extends_fast_path extends_emit]
               extends_trans [OF extends_slow_path extends_emit])
qed

lemma extends_repeat_loop:
  "repeat_loop fw cfg b n st = (st', err) \<Longrightarrow> extends cfg st st'"
proof (induction n arbitrary: st)
  case 0 then show ?case by (simp add: extends_refl)
next
  case (Suc n)
  obtain st1 e1 where i: "minibatch_iteration fw cfg b st = (st1, e1)"
    by (cases "minibatch_iteration fw cfg b st")
  note x = extends_minibatch_iteration [OF i]
  show ?case
  proof (cases e1)
    case None
    with Suc.prems i have "repeat_loop fw cfg b n st1 = (st', err)" by simp
    from extends_trans [OF x Suc.IH [OF this]] show ?thesis .
  next
    case (Some e)
    with Suc.prems i x show ?thesis by simp
  qed
qed

lemma extends_image_snapshot:
  "image_snapshot cfg dn st = (st', err) \<Longrightarrow> extends cfg st st'"
  by (auto simp: image_snapshot_def extends_refl split: option.splits sum.splits if_splits
      intro!: extends_emit)

lemma list_all_replicate [simp]: "list_all P (replicate n x) \<longleftrightarrow> n = 0 \<or> P x"
  by (induction n) auto

lemma pickle_writes_replicate [simp]:
  "pickle_writes (replicate n (Metric_run p)) = []" "pickle_writes (replicate n Metric_update) = []"
  "pickle_writes (replicate n Metric_configure) = []"
  by (induction n) simp_all

lemma extends_network_snapshot:
  assumes "network_snapshot cfg dn st = (st', err)"
  shows "extends cfg st st'"
proof (cases "st' = st")
  case True then show ?thesis by (simp add: extends_refl)
next
  case False
  with assms obtain t where t: "network_snapshot_ticks cfg = Some t"
    and s: "st' = emit (replicate (num_metrics cfg) (Metric_run (snapshot_name cfg (cur_nimg st))))
        (st\<lparr>disk := (disk st)(snapshot_name cfg (cur_nimg st) \<mapsto> snapshot_of (nets st)),
            trace := trace st @ [Pickle_dump (snapshot_name cfg (cur_nimg st)) (snapshot_of (nets st))]\<rparr>)"
    by (auto simp: network_snapshot_def Let_def split: option.splits sum.splits if_splits)
  show ?thesis unfolding s extends_def emit_def
    by (intro exI [of _ "Pickle_dump (snapshot_name cfg (cur_nimg st)) (snapshot_of (nets st))
          # replicate (num_metrics cfg) (Metric_run (snapshot_name cfg (cur_nimg st)))"])
       (use t in auto)
qed

lemma extends_ticks:
  "extends cfg (st\<lparr>cur_tick := a, tick_start_nimg := b\<rparr>) st' \<Longrightarrow> extends cfg st st'"
  by (simp add: extends_def)

lemma extends_maintenance:
  assumes "maintenance cfg dn st = (st', err)"
  shows "extends cfg st st'"
proof -
  let ?st1 = "st\<lparr>cur_tick := cur_tick st + 1, tick_start_nimg := cur_nimg st\<rparr>"
  let ?st2 = "if progress_fn cfg
     then emit [Progress_fn (cur_nimg ?st1 div 1000) (total_kimg cfg)] ?st1 else ?st1"
  have 2: "extends cfg ?st1 ?st2" by (auto intro!: extends_emit simp: extends_refl)
  obtain st3 e3 where i: "image_snapshot cfg dn ?st2 = (st3, e3)"
    by (cases "image_snapshot cfg dn ?st2")
  obtain st4 e4 where n: "network_snapshot cfg dn st3 = (st4, e4)"
    by (cases "network_snapshot cfg dn st3")
  note 3 = extends_trans [OF 2 extends_image_snapshot [OF i]]
  note 4 = extends_trans [OF 3 extends_network_snapshot [OF n]]
  have 5: "extends cfg ?st1
     (emit (replicate (num_metrics cfg) Metric_update @ [Save_summaries (cur_nimg st4)]) st4)"
    by (rule extends_trans [OF 4 extends_emit]) (simp_all add: pickle_writes_append)
  from assms i n have "st' = ?st1 \<or> st' = st3 \<or> st' = st4
     \<or> st' = emit (replicate (num_metrics cfg) Metric_update @ [Save_summaries (cur_nimg st4)]) st4"
    by (auto simp: maintenance_def Let_def split: if_splits option.splits)
  with 3 4 5 have "extends cfg ?st1 st'" by (auto simp: extends_refl)
  then show ?thesis by (rule extends_ticks)
qed

lemma extends_check_done: "check_done cfg st = (dn, st') \<Longrightarrow> extends cfg st st'"
  by (auto simp: check_done_def extends_def split: if_splits option.splits)

lemma extends_loop_pass:
  assumes "loop_pass fw cfg st = (st', res)"
  shows "extends cfg st st'"
proof -
  obtain st1 e1 where r: "repeat_loop fw cfg (Gs_beta_of cfg (cur_nimg st))
      (nat (minibatch_repeats cfg)) st = (st1, e1)"
    by (cases "repeat_loop fw cfg (Gs_beta_of cfg (cur_nimg st)) (nat (minibatch_repeats cfg)) st")
  note 1 = extends_repeat_loop [OF r]
  let ?st2 = "if augment cfg
      then emit [Aug_tune (minibatch_size cfg * minibatch_repeats cfg)] st1 else st1"
  have "extends cfg st1 ?st2" by (auto intro!: extends_emit simp: extends_refl)
  note 2 = extends_trans [OF 1 this]
  obtain d st3 where c: "check_done cfg ?st2 = (d, st3)" by (cases "check_done cfg ?st2")
  note 3 = extends_trans [OF 2 extends_check_done [OF c]]
  obtain st4 e4 where m: "maintenance cfg d st3 = (st4, e4)" by (cases "maintenance cfg d st3")
  note 4 = extends_trans [OF 3 extends_maintenance [OF m]]
  from assms r c m have "st' = st1 \<or> st' = st3 \<or> st' = st4"
    by (auto simp: loop_pass_def Let_def split: if_splits option.splits)
  with 1 3 4 show ?thesis by auto
qed

lemma extends_training_while:
  "training_while fw cfg fuel st = (st', out, n) \<Longrightarrow> extends cfg st st'"
proof (induction fuel arbitrary: st n)
  case 0 then show ?case by (simp add: extends_refl)
next
  case (Suc fuel)
  obtain st1 res where p: "loop_pass fw cfg st = (st1, res)" by (cases "loop_pass fw cfg st")
  note 1 = extends_loop_pass [OF p]
  show ?case
  proof (cases "res = Inr False")
    case True
    with Suc.prems p obtain m where "training_while fw cfg fuel st1 = (st', out, m)"
      by (auto split: prod.splits)
    from extends_trans [OF 1 Suc.IH [OF this]] show ?thesis .
  next
    case False
    with Suc.prems p have "st' = st1" by (auto split: sum.splits if_splits)
    with 1 show ?thesis by simp
  qed
qed

lemma png_writes_none: "(\<And>p. Save_png p \<notin> set es) \<Longrightarrow> png_writes es = []"
  by (induction es rule: png_writes.induct) auto

lemma pickle_writes_none:
  assumes "\<And>p s. Pickle_dump p s \<notin> set es"
  shows "pickle_writes es = []"
  using assms
proof (induction es)
  case Nil show ?case by simp
next
  case (Cons e es)
  have "pickle_writes es = []" by (rule Cons.IH) (use Cons.prems in simp)
  moreover have "\<And>p s. e \<noteq> Pickle_dump p s" using Cons.prems by (simp add: eq_commute)
  ultimately show ?case by (cases e) (simp_all, blast)
qed

lemma metric_runs_none: "(\<And>p. Metric_run p \<notin> set es) \<Longrightarrow> metric_runs es = []"
  by (induction es rule: metric_runs.induct) auto

lemma register_gpu_events:
  "e \<in> set (register_gpu cfg t) \<Longrightarrow> \<exists>opt l vs. e = Register_gradients opt l vs"
  by (auto simp: register_gpu_def Let_def split: if_splits option.splits)

lemma registrations_events:
  "e \<in> set (concat (map (\<lambda>gpu. register_gpu cfg (f gpu)) gpus)) \<Longrightarrow>
   \<exists>opt l vs. e = Register_gradients opt l vs"
  by (auto dest: register_gpu_events)

lemma registrations_projections [simp]:
  "png_writes (concat (map (\<lambda>gpu. register_gpu cfg (f gpu)) gpus)) = []"
  "pickle_writes (concat (map (\<lambda>gpu. register_gpu cfg (f gpu)) gpus)) = []"
  "metric_runs (concat (map (\<lambda>gpu. register_gpu cfg (f gpu)) gpus)) = []"
proof -
  have r: "\<And>e. e \<in> set (concat (map (\<lambda>gpu. register_gpu cfg (f gpu)) gpus)) \<Longrightarrow>
      \<exists>opt l vs. e = Register_gradients opt l vs"
    by (rule registrations_events)
  show "png_writes (concat (map (\<lambda>gpu. register_gpu cfg (f gpu)) gpus)) = []"
    by (rule png_writes_none) (use r in blast)
  show "pickle_writes (concat (map (\<lambda>gpu. register_gpu cfg (f gpu)) gpus)) = []"
    by (rule pickle_writes_none) (use r in blast)
  show "metric_runs (concat (map (\<lambda>gpu. register_gpu cfg (f gpu)) gpus)) = []"
    by (rule metric_runs_none) (use r in blast)
qed

lemma projections_replicate [simp]:
  "png_writes (replicate n Metric_configure) = []"
  "metric_runs (replicate n Metric_configure) = []"
  by (induction n) simp_all

lemma prepare_projections:
  assumes "prepare fw cfg dsk = (st, err)"
  shows "disk st = dsk" "pickle_writes (trace st) = []" "metric_runs (trace st) = []"
    "png_writes (trace st) = [] \<or> png_writes (trace st)
        = [path_join (run_dir cfg) ''reals.png'', path_join (run_dir cfg) ''fakes_init.png'']"
    "err = None \<Longrightarrow> png_writes (trace st)
        = [path_join (run_dir cfg) ''reals.png'', path_join (run_dir cfg) ''fakes_init.png'']"
  using assms
  by (auto simp: prepare_def Let_def emit_def start_state_def
        png_writes_append pickle_writes_append metric_runs_append
      split: sum.splits if_splits option.splits)

lemma loop_events_no_png:
  "list_all (loop_event cfg) es \<Longrightarrow> image_snapshot_ticks cfg = None \<Longrightarrow> png_writes es = []"
  by (induction es rule: png_writes.induct) auto

lemma loop_events_no_pickle:
  "list_all (loop_event cfg) es \<Longrightarrow> network_snapshot_ticks cfg = None \<Longrightarrow>
   pickle_writes es = [] \<and> metric_runs es = []"
  by (induction es rule: pickle_writes.induct) auto

text \<open>
  Claim C9. When \<open>image_snapshot_ticks\<close> is \<open>None\<close>, the image files written by
  \<open>training_loop\<close> are \<open>reals.png\<close> and \<open>fakes_init.png\<close> in the run directory and no
  other (none at all when the script stopped before them, both when it finished).
  When \<open>network_snapshot_ticks\<close> is \<open>None\<close>, no pickle file is written, the disk is
  left as it was, and no metric is evaluated.
\<close>

theorem snapshots_disabled:
  assumes run: "training_loop fw cfg dsk fuel = (st, out, n)"
  shows "(image_snapshot_ticks cfg = None \<longrightarrow>
            png_writes (trace st) = [] \<or>
            png_writes (trace st)
              = [path_join (run_dir cfg) ''reals.png'', path_join (run_dir cfg) ''fakes_init.png''])
       \<and> (image_snapshot_ticks cfg = None \<and> out = Finished \<longrightarrow>
            png_writes (trace st)
              = [path_join (run_dir cfg) ''reals.png'', path_join (run_dir cfg) ''fakes_init.png''])
       \<and> (network_snapshot_ticks cfg = None \<longrightarrow>
            pickle_writes (trace st) = [] \<and> metric_runs (trace st) = [] \<and> disk st = dsk)"
proof -
  obtain st0 err where p: "prepare fw cfg dsk = (st0, err)" by (cases "prepare fw cfg dsk")
  note pp = prepare_projections [OF p]
  show ?thesis
  proof (cases err)
    case (Some e)
    with run p have "st = st0" "out = Raised e" by (simp_all add: training_loop_def)
    with pp show ?thesis by simp
  next
    case None
    obtain st1 out1 n1 where w: "training_while fw cfg fuel st0 = (st1, out1, n1)"
      by (cases "training_while fw cfg fuel st0")
    from extends_training_while [OF w] obtain es where
      es: "trace st1 = trace st0 @ es" "list_all (loop_event cfg) es"
      "disk st1 = (disk st0) ++ map_of (rev (pickle_writes es))"
      by (auto simp: extends_def)
    from run p None w have st: "trace st = trace st1 \<or> trace st = trace st1 @ [Close_log, Close_dataset]"
      "disk st = disk st1"
      by (auto simp: training_loop_def emit_def split: if_splits)
    have png: "png_writes (trace st) = png_writes (trace st0) @ png_writes es"
      using st(1) es(1) by (auto simp: png_writes_append)
    have pkl: "pickle_writes (trace st) = pickle_writes es"
      using st(1) es(1) pp(2) by (auto simp: pickle_writes_append)
    have met: "metric_runs (trace st) = metric_runs es"
      using st(1) es(1) pp(3) by (auto simp: metric_runs_append)
    have a: "png_writes (trace st)
              = [path_join (run_dir cfg) ''reals.png'', path_join (run_dir cfg) ''fakes_init.png'']"
      if "image_snapshot_ticks cfg = None"
      using png pp(5) [OF None] loop_events_no_png [OF es(2) that] by simp
    have b: "pickle_writes (trace st) = [] \<and> metric_runs (trace st) = [] \<and> disk st = dsk"
      if "network_snapshot_ticks cfg = None"
      using pkl met loop_events_no_pickle [OF es(2) that] es(3) st(2) pp(1) by simp
    from a b show ?thesis by blast
  qed
qed

lemma ex_small_finishes:
  "fst (snd (training_loop ex_fw ex_small Map.empty 3)) = Finished"
  "snd (snd (training_loop ex_fw ex_small Map.empty 3)) = 2"
  "cur_nimg (fst (training_loop ex_fw ex_small Map.empty 3)) = 1000"
  by (simp_all add: run_defs ex_small_def ex_cfg_def ex_fw_def ex_opt_args_def numeral_3_eq_3)

theorem snapshots_disabled_witness:
  "image_snapshot_ticks ex_small = None \<and> network_snapshot_ticks ex_small = None
   \<and> fst (snd (training_loop ex_fw ex_small Map.empty 3)) = Finished
   \<and> png_writes (trace (fst (training_loop ex_fw ex_small Map.empty 3)))
       = [''./reals.png'', ''./fakes_init.png'']
   \<and> pickle_writes (trace (fst (training_loop ex_fw ex_small Map.empty 3))) = []
   \<and> metric_runs (trace (fst (training_loop ex_fw ex_small Map.empty 3))) = []
   \<and> dom (disk (fst (training_loop ex_fw ex_small Map.empty 3))) = {}"
proof -
  let ?r = "training_loop ex_fw ex_small Map.empty 3"
  have n: "image_snapshot_ticks ex_small = None" "network_snapshot_ticks ex_small = None"
    by (simp_all add: ex_small_def ex_cfg_def)
  have d: "run_dir ex_small = ''.''"
    by (simp add: ex_small_def ex_cfg_def)
  have "?r = (fst ?r, fst (snd ?r), snd (snd ?r))" by simp
  note t = snapshots_disabled [OF this]
  from t [THEN conjunct2, THEN conjunct1] n(1) ex_small_finishes(1)
  have "png_writes (trace (fst ?r))
      = [path_join (run_dir ex_small) ''reals.png'', path_join (run_dir ex_small) ''fakes_init.png'']"
    by blast
  then have a: "png_writes (trace (fst ?r)) = [''./reals.png'', ''./fakes_init.png'']"
    unfolding d by (simp add: path_join_def)
  from t [THEN conjunct2, THEN conjunct2] n(2)
  have "pickle_writes (trace (fst ?r)) = []" "metric_runs (trace (fst ?r)) = []"
    "disk (fst ?r) = Map.empty"
    by blast+
  with a n ex_small_finishes(1) show ?thesis by simp
qed

section \<open>Properties of the training script: termination\<close>

lemma cur_nimg_tflib_run [simp]: "cur_nimg (tflib_run fw ops feed st) = cur_nimg st"
  by (simp add: tflib_run_def)

lemma cur_nimg_emit [simp]: "cur_nimg (emit es st) = cur_nimg st"
  by (simp add: emit_def)

lemma cur_nimg_G_rounds [simp]: "cur_nimg (G_rounds fw r n st) = cur_nimg st"
  by (induction n arbitrary: st) (simp_all add: Let_def)

lemma cur_nimg_D_rounds [simp]: "cur_nimg (D_rounds fw r n st) = cur_nimg st"
  by (induction n arbitrary: st) (simp_all add: Let_def)

lemma cur_nimg_fast_path [simp]: "cur_nimg (fast_path fw b rG rD st) = cur_nimg st"
  by (simp add: fast_path_def Let_def)

lemma cur_nimg_slow_path [simp]: "cur_nimg (slow_path fw b n rG rD st) = cur_nimg st"
  by (simp add: slow_path_def Let_def)

lemma minibatch_iteration_cur_nimg:
  assumes "minibatch_iteration fw cfg b st = (st', err)"
  shows "cur_nimg st' = (if err = None then cur_nimg st + minibatch_size cfg else cur_nimg st)"
  using assms
  by (auto simp: minibatch_iteration_def Let_def split: sum.splits if_splits)

lemma repeat_loop_cur_nimg:
  "repeat_loop fw cfg b n st = (st', err) \<Longrightarrow>
   \<exists>k\<le>n. cur_nimg st' = cur_nimg st + int k * minibatch_size cfg \<and> (err = None \<longrightarrow> k = n)"
proof (induction n arbitrary: st)
  case 0 then show ?case by simp
next
  case (Suc n)
  obtain st1 e1 where i: "minibatch_iteration fw cfg b st = (st1, e1)"
    by (cases "minibatch_iteration fw cfg b st")
  note c = minibatch_iteration_cur_nimg [OF i]
  show ?case
  proof (cases e1)
    case (Some e)
    with Suc.prems i c have "cur_nimg st' = cur_nimg st" "err \<noteq> None" by auto
    then show ?thesis by (intro exI [of _ 0]) simp
  next
    case None
    with Suc.prems i have "repeat_loop fw cfg b n st1 = (st', err)" by simp
    from Suc.IH [OF this] obtain k where k: "k \<le> n"
      "cur_nimg st' = cur_nimg st1 + int k * minibatch_size cfg" "err = None \<longrightarrow> k = n" by blast
    with c None show ?thesis
      by (intro exI [of _ "Suc k"]) (simp add: algebra_simps)
  qed
qed

lemma image_snapshot_cur_nimg:
  "image_snapshot cfg dn st = (st', err) \<Longrightarrow> cur_nimg st' = cur_nimg st"
  by (auto simp: image_snapshot_def split: option.splits sum.splits if_splits)

lemma network_snapshot_cur_nimg:
  "network_snapshot cfg dn st = (st', err) \<Longrightarrow> cur_nimg st' = cur_nimg st"
  by (auto simp: network_snapshot_def Let_def split: option.splits sum.splits if_splits)

lemma maintenance_cur_nimg:
  "maintenance cfg dn st = (st', err) \<Longrightarrow> cur_nimg st' = cur_nimg st"
  by (auto simp: maintenance_def Let_def split: option.splits prod.splits if_splits
      dest!: image_snapshot_cur_nimg network_snapshot_cur_nimg)

lemma check_done_cur_nimg:
  "check_done cfg st = (dn, st') \<Longrightarrow>
   cur_nimg st' = cur_nimg st \<and> (\<not> dn \<longrightarrow> cur_nimg st < total_kimg cfg * 1000)"
  by (auto simp: check_done_def split: if_splits option.splits)

lemma loop_pass_cur_nimg:
  assumes "loop_pass fw cfg st = (st', res)"
  shows "\<exists>k\<le>nat (minibatch_repeats cfg).
           cur_nimg st' = cur_nimg st + int k * minibatch_size cfg
           \<and> ((\<exists>dn. res = Inr dn) \<longrightarrow> k = nat (minibatch_repeats cfg))
           \<and> (res = Inr False \<longrightarrow> cur_nimg st' < total_kimg cfg * 1000)"
proof -
  obtain st1 e1 where r: "repeat_loop fw cfg (Gs_beta_of cfg (cur_nimg st))
      (nat (minibatch_repeats cfg)) st = (st1, e1)"
    by (cases "repeat_loop fw cfg (Gs_beta_of cfg (cur_nimg st)) (nat (minibatch_repeats cfg)) st")
  from repeat_loop_cur_nimg [OF r] obtain k where k: "k \<le> nat (minibatch_repeats cfg)"
    "cur_nimg st1 = cur_nimg st + int k * minibatch_size cfg"
    "e1 = None \<longrightarrow> k = nat (minibatch_repeats cfg)" by blast
  show ?thesis
  proof (cases e1)
    case (Some e)
    with assms r have "st' = st1" "res = Inl e" by (simp_all add: loop_pass_def Let_def)
    with k show ?thesis by (intro exI [of _ k]) simp
  next
    case None
    let ?st2 = "if augment cfg
        then emit [Aug_tune (minibatch_size cfg * minibatch_repeats cfg)] st1 else st1"
    obtain d st3 where c: "check_done cfg ?st2 = (d, st3)" by (cases "check_done cfg ?st2")
    have 2: "cur_nimg ?st2 = cur_nimg st1" by simp
    from check_done_cur_nimg [OF c]
    have 3: "cur_nimg st3 = cur_nimg st1" "\<not> d \<longrightarrow> cur_nimg st1 < total_kimg cfg * 1000"
      unfolding 2 by blast+
    obtain st4 e4 where m: "maintenance cfg d st3 = (st4, e4)" by (cases "maintenance cfg d st3")
    note 4 = maintenance_cur_nimg [OF m]
    from assms r None c m have "(st' = st3 \<and> res = Inr d) \<or> (st' = st4 \<and> (res = Inr d \<or> (\<exists>e. res = Inl e)))"
      by (auto simp: loop_pass_def Let_def split: if_splits option.splits)
    with 3 4 have "cur_nimg st' = cur_nimg st1" "res = Inr False \<longrightarrow> cur_nimg st1 < total_kimg cfg * 1000"
      by auto
    with k None show ?thesis by (intro exI [of _ k]) simp
  qed
qed

lemma training_while_cur_nimg:
  "training_while fw cfg fuel st = (st', out, n) \<Longrightarrow> out = Finished \<or> out = Out_of_fuel \<Longrightarrow>
   cur_nimg st' = cur_nimg st + int n * (int (nat (minibatch_repeats cfg)) * minibatch_size cfg)"
proof (induction fuel arbitrary: st n)
  case 0 then show ?case by simp
next
  case (Suc fuel)
  obtain st1 res where p: "loop_pass fw cfg st = (st1, res)" by (cases "loop_pass fw cfg st")
  from Suc.prems p obtain dn where res: "res = Inr dn"
    by (cases res) auto
  from loop_pass_cur_nimg [OF p] res
  have c: "cur_nimg st1 = cur_nimg st + int (nat (minibatch_repeats cfg)) * minibatch_size cfg"
    by auto
  show ?case
  proof (cases dn)
    case True
    with Suc.prems p res have "st' = st1" "n = 1" by simp_all
    with c show ?thesis by simp
  next
    case False
    with Suc.prems p res obtain m where w: "training_while fw cfg fuel st1 = (st', out, m)"
      and n: "n = Suc m" by (auto split: prod.splits)
    from Suc.IH [OF w Suc.prems(2)] c n show ?thesis by (simp add: algebra_simps)
  qed
qed

lemma training_while_still:
  "training_while fw cfg fuel st = (st', out, n) \<Longrightarrow> minibatch_size cfg = 0 \<Longrightarrow>
   cur_nimg st' = cur_nimg st"
proof (induction fuel arbitrary: st n)
  case 0 then show ?case by simp
next
  case (Suc fuel)
  obtain st1 res where p: "loop_pass fw cfg st = (st1, res)" by (cases "loop_pass fw cfg st")
  from loop_pass_cur_nimg [OF p] Suc.prems(2) have c: "cur_nimg st1 = cur_nimg st" by auto
  show ?case
  proof (cases "res = Inr False")
    case True
    with Suc.prems p obtain m where "training_while fw cfg fuel st1 = (st', out, m)"
      by (auto split: prod.splits)
    from Suc.IH [OF this Suc.prems(2)] c show ?thesis by simp
  next
    case False
    with Suc.prems p have "st' = st1" by (auto split: sum.splits if_splits)
    with c show ?thesis by simp
  qed
qed

lemma training_while_terminates:
  fixes step :: int
  assumes "step = int (nat (minibatch_repeats cfg)) * minibatch_size cfg"
    and "training_while fw cfg fuel st = (st', out, n)"
    and "total_kimg cfg * 1000 \<le> cur_nimg st + int k * step" and "1 \<le> k" and "k \<le> fuel"
  shows "out \<noteq> Out_of_fuel \<and> n \<le> k"
  using assms(2-)
proof (induction fuel arbitrary: st k n)
  case 0 then show ?case by simp
next
  case (Suc fuel)
  obtain st1 res where p: "loop_pass fw cfg st = (st1, res)" by (cases "loop_pass fw cfg st")
  show ?case
  proof (cases "res = Inr False")
    case False
    with Suc.prems(1) p have "n = 1" "out \<noteq> Out_of_fuel"
      by (auto split: sum.splits if_splits)
    with Suc.prems(3) show ?thesis by simp
  next
    case True
    with Suc.prems(1) p obtain m where w: "training_while fw cfg fuel st1 = (st', out, m)"
      and n: "n = Suc m" by (auto split: prod.splits)
    from loop_pass_cur_nimg [OF p] True assms(1)
    have c: "cur_nimg st1 = cur_nimg st + step" "cur_nimg st1 < total_kimg cfg * 1000" by auto
    with Suc.prems(2) have "cur_nimg st + step < cur_nimg st + int k * step" by linarith
    then have "k \<noteq> 1" by auto
    with Suc.prems(3) obtain j where j: "k = Suc j" "1 \<le> j" by (cases k) auto
    with Suc.prems(2) c have "total_kimg cfg * 1000 \<le> cur_nimg st1 + int j * step"
      by (simp add: algebra_simps)
    from Suc.IH [OF w this j(2)] Suc.prems(4) j n show ?thesis by simp
  qed
qed

lemma prepare_cur_nimg: "prepare fw cfg dsk = (st, err) \<Longrightarrow> cur_nimg st = 0"
  by (auto simp: prepare_def Let_def emit_def start_state_def
      split: sum.splits if_splits option.splits)

lemma ceiling_bound:
  fixes T s :: int
  assumes "0 < s"
  shows "T \<le> int (max 1 (nat \<lceil>real_of_int T / real_of_int s\<rceil>)) * s"
proof -
  let ?c = "\<lceil>real_of_int T / real_of_int s\<rceil>"
  have "real_of_int T / real_of_int s \<le> real_of_int ?c" by (rule le_of_int_ceiling)
  moreover from assms have "0 < real_of_int s" by simp
  ultimately have "real_of_int T \<le> real_of_int ?c * real_of_int s"
    by (simp only: pos_divide_le_eq)
  then have "T \<le> ?c * s" by (metis of_int_le_iff of_int_mult)
  also have "?c \<le> int (max 1 (nat ?c))" by simp
  then have "?c * s \<le> int (max 1 (nat ?c)) * s" using assms by (intro mult_right_mono) simp_all
  finally show ?thesis .
qed

lemma prepare_starts:
  assumes "prepare fw cfg dsk = (st, err)" "err \<noteq> Some AssertionError"
    "num_gpus cfg * minibatch_gpu cfg \<noteq> 0"
  shows "take 1 (trace st) = [Load_dataset]"
  using assms
  by (auto simp: prepare_def Let_def emit_def start_state_def py_mod_def
      split: sum.splits if_splits option.splits)

text \<open>
  Claim C8, as stated: with \<open>minibatch_size \<ge> 1\<close> and \<open>minibatch_repeats \<ge> 1\<close> the loop
  exits after at most \<open>ceil(total_kimg * 1000 / (minibatch_size * minibatch_repeats))\<close>
  passes. It fails for \<open>total_kimg = 0\<close>: the bound is 0, and the body of
  \<open>while not done\<close> runs once before \<open>done\<close> is computed.
\<close>

theorem training_loop_terminates_counterexample:
  "\<not> (1 \<le> minibatch_size ex_zero \<and> 1 \<le> minibatch_repeats ex_zero
        \<longrightarrow> snd (snd (training_loop ex_fw ex_zero Map.empty 5))
             \<le> nat \<lceil>real_of_int (total_kimg ex_zero * 1000)
                      / real_of_int (minibatch_size ex_zero * minibatch_repeats ex_zero)\<rceil>)"
proof -
  have "snd (snd (training_loop ex_fw ex_zero Map.empty 5)) = 1"
    by (simp add: run_defs ex_zero_def ex_cfg_def ex_fw_def ex_opt_args_def numeral_eq_Suc)
  moreover have "minibatch_size ex_zero = 32" "minibatch_repeats ex_zero = 1" "total_kimg ex_zero = 0"
    by (simp_all add: ex_zero_def ex_cfg_def)
  ultimately show ?thesis by simp
qed

text \<open>
  Claim C8, amended. With \<open>minibatch_size \<ge> 1\<close> and \<open>minibatch_repeats \<ge> 1\<close> (the abort
  callback, if any, answers every call), the loop ends, finished or with an exception,
  after at most \<open>max(1, ceil(total_kimg * 1000 / (minibatch_size * minibatch_repeats)))\<close>
  passes: that much fuel is enough. After \<open>n\<close> complete passes \<open>cur_nimg\<close> is
  \<open>n * minibatch_size * minibatch_repeats\<close>. With \<open>minibatch_size = 0\<close> and
  \<open>num_gpus * minibatch_gpu\<close> not zero, the assertion passes (the data set is loaded)
  and \<open>cur_nimg\<close> stays 0.
\<close>

theorem training_loop_terminates:
  assumes run: "training_loop fw cfg dsk fuel = (st, out, n)"
  shows "(1 \<le> minibatch_size cfg \<and> 1 \<le> minibatch_repeats cfg
          \<and> max 1 (nat \<lceil>real_of_int (total_kimg cfg * 1000)
                          / real_of_int (minibatch_size cfg * minibatch_repeats cfg)\<rceil>) \<le> fuel
          \<longrightarrow> out \<noteq> Out_of_fuel
              \<and> n \<le> max 1 (nat \<lceil>real_of_int (total_kimg cfg * 1000)
                                  / real_of_int (minibatch_size cfg * minibatch_repeats cfg)\<rceil>))
       \<and> (0 \<le> minibatch_repeats cfg \<and> (out = Finished \<or> out = Out_of_fuel)
          \<longrightarrow> cur_nimg st = int n * (minibatch_size cfg * minibatch_repeats cfg))
       \<and> (minibatch_size cfg = 0 \<and> num_gpus cfg * minibatch_gpu cfg \<noteq> 0
          \<longrightarrow> out \<noteq> Raised AssertionError \<and> take 1 (trace st) = [Load_dataset] \<and> cur_nimg st = 0)"
proof -
  obtain st0 err where p: "prepare fw cfg dsk = (st0, err)" by (cases "prepare fw cfg dsk")
  note z = prepare_cur_nimg [OF p]
  show ?thesis
  proof (cases err)
    case (Some e)
    with run p have r: "st = st0" "out = Raised e" "n = 0" by (simp_all add: training_loop_def)
    have "e \<noteq> AssertionError \<and> take 1 (trace st) = [Load_dataset]"
      if m: "minibatch_size cfg = 0" and d: "num_gpus cfg * minibatch_gpu cfg \<noteq> 0"
    proof -
      from prepare_assertion [OF p] m d Some have "e \<noteq> AssertionError" by auto
      with prepare_starts [OF p _ d] Some r show ?thesis by simp
    qed
    with r z show ?thesis by simp
  next
    case None
    obtain st1 out1 n1 where w: "training_while fw cfg fuel st0 = (st1, out1, n1)"
      by (cases "training_while fw cfg fuel st0")
    from run p None w have r: "cur_nimg st = cur_nimg st1" "out = out1" "n = n1"
      "trace st = trace st1 \<or> trace st = trace st1 @ [Close_log, Close_dataset]"
      by (auto simp: training_loop_def emit_def split: if_splits)
    let ?step = "minibatch_size cfg * minibatch_repeats cfg"
    let ?B = "max 1 (nat \<lceil>real_of_int (total_kimg cfg * 1000) / real_of_int ?step\<rceil>)"
    have a: "out \<noteq> Out_of_fuel \<and> n \<le> ?B"
      if m: "1 \<le> minibatch_size cfg" and k: "1 \<le> minibatch_repeats cfg" and f: "?B \<le> fuel"
    proof -
      from k have s: "?step = int (nat (minibatch_repeats cfg)) * minibatch_size cfg" by simp
      from m k have "0 < ?step" by simp
      from ceiling_bound [OF this, of "total_kimg cfg * 1000"] z
      have "total_kimg cfg * 1000 \<le> cur_nimg st0 + int ?B * ?step" by simp
      from training_while_terminates [OF s w this _ f] r show ?thesis by simp
    qed
    have b: "cur_nimg st = int n * ?step"
      if k: "0 \<le> minibatch_repeats cfg" and o: "out = Finished \<or> out = Out_of_fuel"
      using training_while_cur_nimg [OF w] o r z k by (simp add: mult.commute)
    have c: "out \<noteq> Raised AssertionError \<and> take 1 (trace st) = [Load_dataset] \<and> cur_nimg st = 0"
      if m: "minibatch_size cfg = 0" and d: "num_gpus cfg * minibatch_gpu cfg \<noteq> 0"
    proof -
      from training_while_error [of fw cfg fuel st0 st1 AssertionError n1] w r
      have 1: "out \<noteq> Raised AssertionError" by auto
      from prepare_starts [OF p _ d] None have "take 1 (trace st0) = [Load_dataset]" by simp
      moreover from extends_training_while [OF w] obtain es where "trace st1 = trace st0 @ es"
        by (auto simp: extends_def)
      ultimately have "take 1 (trace st1) = [Load_dataset]"
        by (cases "trace st0") simp_all
      with r(4) have 2: "take 1 (trace st) = [Load_dataset]"
        by (cases "trace st1") auto
      from training_while_still [OF w m] r z have "cur_nimg st = 0" by simp
      with 1 2 show ?thesis by simp
    qed
    from a b c show ?thesis by blast
  qed
qed

theorem training_loop_terminates_witness:
  "1 \<le> minibatch_size ex_small \<and> 1 \<le> minibatch_repeats ex_small
   \<and> max 1 (nat \<lceil>real_of_int (total_kimg ex_small * 1000)
                  / real_of_int (minibatch_size ex_small * minibatch_repeats ex_small)\<rceil>) = 2
   \<and> fst (snd (training_loop ex_fw ex_small Map.empty 3)) = Finished
   \<and> snd (snd (training_loop ex_fw ex_small Map.empty 3)) = 2
   \<and> cur_nimg (fst (training_loop ex_fw ex_small Map.empty 3)) = 2 * (500 * 1)"
proof -
  let ?r = "training_loop ex_fw ex_small Map.empty 3"
  have c: "minibatch_size ex_small = 500" "minibatch_repeats ex_small = 1" "total_kimg ex_small = 1"
    by (simp_all add: ex_small_def ex_cfg_def)
  have B: "max 1 (nat \<lceil>real_of_int (total_kimg ex_small * 1000)
                  / real_of_int (minibatch_size ex_small * minibatch_repeats ex_small)\<rceil>) = 2"
    unfolding c by simp
  have "?r = (fst ?r, fst (snd ?r), snd (snd ?r))" by simp
  note t = training_loop_terminates [OF this]
  from t [THEN conjunct1] B c have 1: "fst (snd ?r) \<noteq> Out_of_fuel" "snd (snd ?r) \<le> 2"
    by simp_all
  from t [THEN conjunct2, THEN conjunct1] c ex_small_finishes(1)
  have 2: "cur_nimg (fst ?r) = int (snd (snd ?r)) * (500 * 1)" by simp
  from 1 2 B c ex_small_finishes show ?thesis by simp
qed

section \<open>Properties of the training script: lazy regularization\<close>

lemma runs_of_append: "runs_of x (xs @ ys) = runs_of x xs + runs_of x ys"
  by (induction xs rule: runs_of.induct) simp_all

lemma runs_of_G_round_events:
  "runs_of G_reg_op (concat (replicate n (G_round_events r))) = (if r then n else 0)"
  "runs_of D_reg_op (concat (replicate n (G_round_events r))) = 0"
  by (induction n) (simp_all add: runs_of_append G_round_events_def)

lemma runs_of_D_round_events:
  "runs_of D_reg_op (concat (replicate n (D_round_events r))) = (if r then n else 0)"
  "runs_of G_reg_op (concat (replicate n (D_round_events r))) = 0"
  by (induction n) (simp_all add: runs_of_append D_round_events_def)

lemma minibatch_iteration_reg_runs:
  assumes it: "minibatch_iteration fw cfg b st = (st', None)"
    and rounds: "range_len (minibatch_size cfg) (minibatch_gpu cfg * num_gpus cfg) = Inr n"
  shows "runs_of G_reg_op (trace st') = runs_of G_reg_op (trace st)
           + (if lazy_regularization cfg \<and> running_mb_counter st mod G_reg_interval cfg = 0
              then n else 0)"
    and "runs_of D_reg_op (trace st') = runs_of D_reg_op (trace st)
           + (if lazy_regularization cfg \<and> running_mb_counter st mod D_reg_interval cfg = 0
              then n else 0)"
  using assms
  by (auto simp: minibatch_iteration_def Let_def emit_def fast_path_trace slow_path_trace
        runs_of_append runs_of_G_round_events runs_of_D_round_events reg_due_def py_mod_def
        split: sum.splits if_splits)

lemma rescale_lazy:
  assumes lazy: "lazy_regularization cfg"
    and g: "num_gpus cfg \<noteq> 0" "minibatch_gpu cfg \<noteq> 0"
    and i: "i + 1 \<noteq> 0"
    and lr: "args ''learning_rate'' = Some lr"
  shows "\<exists>args'. rescale_opt_args cfg i args = Inr args'
      \<and> args' ''learning_rate'' = Some (lr * (of_int i / of_int (i + 1)))
      \<and> args' ''beta1'' = map_option (\<lambda>b. float_pow b (of_int i / of_int (i + 1))) (args ''beta1'')
      \<and> args' ''beta2'' = map_option (\<lambda>b. float_pow b (of_int i / of_int (i + 1))) (args ''beta2'')
      \<and> (\<forall>k. k \<notin> {''minibatch_multiplier'', ''learning_rate'', ''beta1'', ''beta2''}
             \<longrightarrow> args' k = args k)"
  using assms
  by (auto simp: rescale_opt_args_def py_floordiv_def Let_def split: option.splits)

lemma rescale_not_lazy:
  assumes "\<not> lazy_regularization cfg" "num_gpus cfg \<noteq> 0" "minibatch_gpu cfg \<noteq> 0"
  shows "rescale_opt_args cfg i args
     = Inr (args(''minibatch_multiplier'' \<mapsto>
              of_int (minibatch_size cfg div num_gpus cfg div minibatch_gpu cfg)))"
  using assms by (simp add: rescale_opt_args_def py_floordiv_def Let_def)

lemma register_not_lazy:
  assumes "\<not> lazy_regularization cfg" "G_reg t = Some g" "D_reg t = Some d" "E_reg t = Some e"
  shows "register_gpu cfg t
     = [Register_gradients G_E_opt (Plus (Plus (G_E_loss t) g) e) [''G'', ''E''],
        Register_gradients D_opt (Plus (D_loss t) d) [''D'', ''D_H'', ''D_J'']]"
  using assms by (simp add: register_gpu_def Let_def)

lemma rescale_result:
  assumes "rescale_opt_args cfg i args = Inr args'"
  shows "(lazy_regularization cfg \<longrightarrow>
            args' ''learning_rate'' = map_option (\<lambda>lr. lr * mb_ratio_of i) (args ''learning_rate'')
          \<and> args' ''beta1'' = map_option (\<lambda>b. float_pow b (mb_ratio_of i)) (args ''beta1'')
          \<and> args' ''beta2'' = map_option (\<lambda>b. float_pow b (mb_ratio_of i)) (args ''beta2''))
       \<and> (\<not> lazy_regularization cfg \<longrightarrow>
            args' ''learning_rate'' = args ''learning_rate''
          \<and> args' ''beta1'' = args ''beta1'' \<and> args' ''beta2'' = args ''beta2'')
       \<and> (\<forall>k. k \<notin> {''minibatch_multiplier'', ''learning_rate'', ''beta1'', ''beta2''}
             \<longrightarrow> args' k = args k)"
  using assms
  by (auto simp: rescale_opt_args_def py_floordiv_def mb_ratio_of_def Let_def
      split: option.splits if_splits)

lemma prepare_optimizers:
  assumes "prepare fw cfg dsk = (st0, None)"
  shows "\<exists>ge d xs ys.
       rescale_opt_args cfg (G_reg_interval cfg) (G_E_opt_args cfg) = Inr ge
     \<and> rescale_opt_args cfg (D_reg_interval cfg) (D_opt_args cfg) = Inr d
     \<and> trace st0 = xs @ [Make_optimizer G_E_opt ge, Make_optimizer D_opt d,
                          Make_optimizer G_reg_opt ge, Make_optimizer D_reg_opt d] @ ys
     \<and> running_mb_counter st0 = 0"
proof -
  from assms obtain ge d where
    g: "rescale_opt_args cfg (G_reg_interval cfg) (G_E_opt_args cfg) = Inr ge"
    and d: "rescale_opt_args cfg (D_reg_interval cfg) (D_opt_args cfg) = Inr d"
    by (auto simp: prepare_def Let_def split: sum.splits if_splits)
  let ?pre = "[Load_dataset, Construct_networks]
      @ (case resume_pkl cfg of None \<Rightarrow> [] | Some url \<Rightarrow> [Open_url url])
      @ [Save_png (path_join (run_dir cfg) ''reals.png''), Gs_run,
         Save_png (path_join (run_dir cfg) ''fakes_init.png'')]
      @ (if augment cfg then [Aug_init] else [])"
  let ?post = "concat (map (\<lambda>gpu. register_gpu cfg (loss_terms fw gpu)) [0 ..< gpu_count cfg])
      @ replicate (num_metrics cfg) Metric_configure
      @ (if progress_fn cfg then [Progress_fn 0 (total_kimg cfg)] else [])"
  from assms g d have "trace st0 = ?pre @ [Make_optimizer G_E_opt ge, Make_optimizer D_opt d,
       Make_optimizer G_reg_opt ge, Make_optimizer D_reg_opt d] @ ?post"
    and "running_mb_counter st0 = 0"
    by (auto simp: prepare_def Let_def emit_def start_state_def split: sum.splits if_splits)
  with g d show ?thesis by blast
qed

lemma register_gpu_not_lazy:
  "\<not> lazy_regularization cfg \<Longrightarrow>
   register_gpu cfg t
     = [Register_gradients G_E_opt (plus_reg (plus_reg (G_E_loss t) (G_reg t)) (E_reg t)) [''G'', ''E''],
        Register_gradients D_opt (plus_reg (D_loss t) (D_reg t)) [''D'', ''D_H'', ''D_J'']]"
  by (cases "G_reg t"; cases "D_reg t"; cases "E_reg t") (simp_all add: register_gpu_def Let_def)

lemma counter_tflib_run [simp]:
  "running_mb_counter (tflib_run fw ops feed st) = running_mb_counter st"
  by (simp add: tflib_run_def)

lemma counter_emit [simp]: "running_mb_counter (emit es st) = running_mb_counter st"
  by (simp add: emit_def)

lemma counter_G_rounds [simp]: "running_mb_counter (G_rounds fw r n st) = running_mb_counter st"
  by (induction n arbitrary: st) (simp_all add: Let_def)

lemma counter_D_rounds [simp]: "running_mb_counter (D_rounds fw r n st) = running_mb_counter st"
  by (induction n arbitrary: st) (simp_all add: Let_def)

lemma counter_fast_path [simp]:
  "running_mb_counter (fast_path fw b rG rD st) = running_mb_counter st"
  by (simp add: fast_path_def Let_def)

lemma counter_slow_path [simp]:
  "running_mb_counter (slow_path fw b n rG rD st) = running_mb_counter st"
  by (simp add: slow_path_def Let_def)

text \<open>
  Claim C10, as stated: under lazy regularization both regularization operations run
  on the very first iteration. It fails for \<open>minibatch_size = 0\<close> (which passes the
  assertion): the iterations of the first pass take the slow path with no round, so
  the Gs update runs and neither regularization operation does.
\<close>

theorem lazy_regularization_schedule_counterexample:
  "\<not> (lazy_regularization ex_empty
        \<and> 0 < runs_of Gs_update_op (trace (fst (training_loop ex_fw ex_empty Map.empty 1)))
        \<longrightarrow> 0 < runs_of G_reg_op (trace (fst (training_loop ex_fw ex_empty Map.empty 1)))
            \<and> 0 < runs_of D_reg_op (trace (fst (training_loop ex_fw ex_empty Map.empty 1))))"
proof -
  have "trace (fst (training_loop ex_fw ex_empty Map.empty 1))
      = trace (fst (prepare ex_fw ex_empty Map.empty))
        @ replicate 4 (Tf_run [Gs_update_op] (Some (Gs_beta_of ex_empty 0)))"
    by (simp add: run_defs ex_empty_def ex_cfg_def ex_fw_def ex_opt_args_def numeral_eq_Suc)
  moreover have "runs_of x (trace (fst (prepare ex_fw ex_empty Map.empty))) = 0" for x
    by (simp add: run_defs ex_empty_def ex_cfg_def ex_fw_def ex_opt_args_def ex_terms_def)
  moreover have "lazy_regularization ex_empty" by (simp add: ex_empty_def ex_cfg_def)
  ultimately show ?thesis by (simp add: runs_of_append numeral_eq_Suc)
qed

text \<open>
  Claim C10, amended. After a set-up that succeeds, the four optimizers are made, once,
  from the rescaled options: under lazy regularization the learning rate is multiplied
  by \<open>mb_ratio = reg_interval / (reg_interval + 1)\<close> and \<open>beta1\<close>, \<open>beta2\<close>, when present,
  are raised to that power, with the interval of G for the G/E options and that of D
  for the D options; otherwise the three are unchanged. The minibatch counter starts
  at 0 and grows by one per iteration. An iteration with \<open>n\<close> rounds runs each
  regularization operation \<open>n\<close> times when lazy regularization is on and the counter is
  0 modulo its interval, and not at all otherwise; so both run on the first iteration
  when it has at least one round, and never without lazy regularization. Without lazy
  regularization the regularization terms that exist are added to the main losses.
\<close>

theorem lazy_regularization_schedule:
  assumes prep: "prepare fw cfg dsk = (st0, None)"
    and it: "minibatch_iteration fw cfg b st = (st', None)"
    and rounds: "range_len (minibatch_size cfg) (minibatch_gpu cfg * num_gpus cfg) = Inr n"
  shows "(\<exists>ge d xs ys.
            trace st0 = xs @ [Make_optimizer G_E_opt ge, Make_optimizer D_opt d,
                              Make_optimizer G_reg_opt ge, Make_optimizer D_reg_opt d] @ ys
          \<and> (if lazy_regularization cfg then
                 ge ''learning_rate'' = map_option (\<lambda>lr. lr * mb_ratio_of (G_reg_interval cfg))
                                          (G_E_opt_args cfg ''learning_rate'')
               \<and> ge ''beta1'' = map_option (\<lambda>x. float_pow x (mb_ratio_of (G_reg_interval cfg)))
                                  (G_E_opt_args cfg ''beta1'')
               \<and> ge ''beta2'' = map_option (\<lambda>x. float_pow x (mb_ratio_of (G_reg_interval cfg)))
                                  (G_E_opt_args cfg ''beta2'')
               \<and> d ''learning_rate'' = map_option (\<lambda>lr. lr * mb_ratio_of (D_reg_interval cfg))
                                          (D_opt_args cfg ''learning_rate'')
               \<and> d ''beta1'' = map_option (\<lambda>x. float_pow x (mb_ratio_of (D_reg_interval cfg)))
                                  (D_opt_args cfg ''beta1'')
               \<and> d ''beta2'' = map_option (\<lambda>x. float_pow x (mb_ratio_of (D_reg_interval cfg)))
                                  (D_opt_args cfg ''beta2'')
             else
                 ge ''learning_rate'' = G_E_opt_args cfg ''learning_rate''
               \<and> ge ''beta1'' = G_E_opt_args cfg ''beta1'' \<and> ge ''beta2'' = G_E_opt_args cfg ''beta2''
               \<and> d ''learning_rate'' = D_opt_args cfg ''learning_rate''
               \<and> d ''beta1'' = D_opt_args cfg ''beta1'' \<and> d ''beta2'' = D_opt_args cfg ''beta2''))
     \<and> running_mb_counter st0 = 0
     \<and> runs_of G_reg_op (trace st') = runs_of G_reg_op (trace st)
           + (if lazy_regularization cfg \<and> running_mb_counter st mod G_reg_interval cfg = 0
              then n else 0)
     \<and> runs_of D_reg_op (trace st') = runs_of D_reg_op (trace st)
           + (if lazy_regularization cfg \<and> running_mb_counter st mod D_reg_interval cfg = 0
              then n else 0)
     \<and> running_mb_counter st' = running_mb_counter st + 1
     \<and> (if lazy_regularization cfg then True
         else \<forall>t. register_gpu cfg t
               = [Register_gradients G_E_opt
                    (plus_reg (plus_reg (G_E_loss t) (G_reg t)) (E_reg t)) [''G'', ''E''],
                  Register_gradients D_opt (plus_reg (D_loss t) (D_reg t)) [''D'', ''D_H'', ''D_J'']])"
proof -
  from prepare_optimizers [OF prep] obtain ge d xs ys where
    g: "rescale_opt_args cfg (G_reg_interval cfg) (G_E_opt_args cfg) = Inr ge"
    and d: "rescale_opt_args cfg (D_reg_interval cfg) (D_opt_args cfg) = Inr d"
    and t: "trace st0 = xs @ [Make_optimizer G_E_opt ge, Make_optimizer D_opt d,
                          Make_optimizer G_reg_opt ge, Make_optimizer D_reg_opt d] @ ys"
    and c: "running_mb_counter st0 = 0" by blast
  note rg = rescale_result [OF g] and rd = rescale_result [OF d]
  have 1: "\<exists>ge d xs ys.
            trace st0 = xs @ [Make_optimizer G_E_opt ge, Make_optimizer D_opt d,
                              Make_optimizer G_reg_opt ge, Make_optimizer D_reg_opt d] @ ys
          \<and> (if lazy_regularization cfg then
                 ge ''learning_rate'' = map_option (\<lambda>lr. lr * mb_ratio_of (G_reg_interval cfg))
                                          (G_E_opt_args cfg ''learning_rate'')
               \<and> ge ''beta1'' = map_option (\<lambda>x. float_pow x (mb_ratio_of (G_reg_interval cfg)))
                                  (G_E_opt_args cfg ''beta1'')
               \<and> ge ''beta2'' = map_option (\<lambda>x. float_pow x (mb_ratio_of (G_reg_interval cfg)))
                                  (G_E_opt_args cfg ''beta2'')
               \<and> d ''learning_rate'' = map_option (\<lambda>lr. lr * mb_ratio_of (D_reg_interval cfg))
                                          (D_opt_args cfg ''learning_rate'')
               \<and> d ''beta1'' = map_option (\<lambda>x. float_pow x (mb_ratio_of (D_reg_interval cfg)))
                                  (D_opt_args cfg ''beta1'')
               \<and> d ''beta2'' = map_option (\<lambda>x. float_pow x (mb_ratio_of (D_reg_interval cfg)))
                                  (D_opt_args cfg ''beta2'')
             else
                 ge ''learning_rate'' = G_E_opt_args cfg ''learning_rate''
               \<and> ge ''beta1'' = G_E_opt_args cfg ''beta1'' \<and> ge ''beta2'' = G_E_opt_args cfg ''beta2''
               \<and> d ''learning_rate'' = D_opt_args cfg ''learning_rate''
               \<and> d ''beta1'' = D_opt_args cfg ''beta1'' \<and> d ''beta2'' = D_opt_args cfg ''beta2'')"
    apply (rule exI [of _ ge], rule exI [of _ d], rule exI [of _ xs], rule exI [of _ ys])
    using t rg rd by (cases "lazy_regularization cfg") simp_all
  have 5: "running_mb_counter st' = running_mb_counter st + 1"
    using it by (auto simp: minibatch_iteration_def Let_def split: sum.splits if_splits)
  have 6: "if lazy_regularization cfg then True
         else \<forall>t. register_gpu cfg t
               = [Register_gradients G_E_opt
                    (plus_reg (plus_reg (G_E_loss t) (G_reg t)) (E_reg t)) [''G'', ''E''],
                  Register_gradients D_opt (plus_reg (D_loss t) (D_reg t)) [''D'', ''D_H'', ''D_J'']]"
    by (simp add: register_gpu_not_lazy)
  from 1 c minibatch_iteration_reg_runs [OF it rounds] 5 6 show ?thesis by blast
qed

theorem lazy_regularization_schedule_witness:
  "snd (prepare ex_fw (ex_cfg\<lparr>minibatch_gpu := 16\<rparr>) Map.empty) = None
   \<and> snd (minibatch_iteration ex_fw (ex_cfg\<lparr>minibatch_gpu := 16\<rparr>) (1 / 2)
            (fst (prepare ex_fw (ex_cfg\<lparr>minibatch_gpu := 16\<rparr>) Map.empty))) = None
   \<and> lazy_regularization (ex_cfg\<lparr>minibatch_gpu := 16\<rparr>)
   \<and> runs_of G_reg_op (trace (fst (minibatch_iteration ex_fw (ex_cfg\<lparr>minibatch_gpu := 16\<rparr>) (1 / 2)
            (fst (prepare ex_fw (ex_cfg\<lparr>minibatch_gpu := 16\<rparr>) Map.empty))))) = 2
   \<and> runs_of D_reg_op (trace (fst (minibatch_iteration ex_fw (ex_cfg\<lparr>minibatch_gpu := 16\<rparr>) (1 / 2)
            (fst (prepare ex_fw (ex_cfg\<lparr>minibatch_gpu := 16\<rparr>) Map.empty))))) = 2"
proof -
  let ?c = "ex_cfg\<lparr>minibatch_gpu := 16\<rparr>"
  let ?s0 = "fst (prepare ex_fw ?c Map.empty)"
  let ?i = "minibatch_iteration ex_fw ?c (1 / 2) ?s0"
  have p0: "snd (prepare ex_fw ?c Map.empty) = None"
    by (simp add: run_defs ex_cfg_def ex_fw_def ex_opt_args_def)
  then have p: "prepare ex_fw ?c Map.empty = (?s0, None)" by (simp add: prod_eq_iff)
  have c0: "running_mb_counter ?s0 = 0"
    by (simp add: run_defs ex_cfg_def ex_fw_def ex_opt_args_def)
  have r: "range_len (minibatch_size ?c) (minibatch_gpu ?c * num_gpus ?c) = Inr 2"
    by (simp add: ex_cfg_def range_len_def)
  have i0: "snd ?i = None"
    using c0 by (simp add: minibatch_iteration_def range_len_def reg_due_def py_mod_def ex_cfg_def Let_def)
  then have i: "?i = (fst ?i, None)" by (simp add: prod_eq_iff)
  have z: "runs_of x (trace ?s0) = 0" for x
    by (simp add: run_defs ex_cfg_def ex_fw_def ex_opt_args_def ex_terms_def)
  have l: "lazy_regularization ?c" "G_reg_interval ?c = 4" "D_reg_interval ?c = 16"
    by (simp_all add: ex_cfg_def)
  note t = lazy_regularization_schedule [OF p i r]
  from t [THEN conjunct2, THEN conjunct2, THEN conjunct1] z l c0
  have g: "runs_of G_reg_op (trace (fst ?i)) = 2" by simp
  from t [THEN conjunct2, THEN conjunct2, THEN conjunct2, THEN conjunct1] z l c0
  have d: "runs_of D_reg_op (trace (fst ?i)) = 2" by simp
  from p0 i0 l(1) g d show ?thesis by blast
qed

section \<open>Properties of the training script: snapshots and resuming\<close>

lemma network_snapshot_written:
  assumes "network_snapshot cfg dn st = (st', err)" "trace st' \<noteq> trace st"
  shows "st' = emit (replicate (num_metrics cfg) (Metric_run (snapshot_name cfg (cur_nimg st))))
        (st\<lparr>disk := (disk st)(snapshot_name cfg (cur_nimg st) \<mapsto> snapshot_of (nets st)),
            trace := trace st @ [Pickle_dump (snapshot_name cfg (cur_nimg st)) (snapshot_of (nets st))]\<rparr>)"
  using assms
  by (auto simp: network_snapshot_def Let_def split: option.splits sum.splits if_splits)

lemma prepare_resume:
  assumes "resume_pkl cfg = Some p"
    and "num_gpus cfg * minibatch_gpu cfg \<noteq> 0"
    and "num_gpus cfg * minibatch_gpu cfg dvd minibatch_size cfg"
    and "dsk p = Some (rG, rD, rGs, rE, rD_H, rD_J)"
  shows "nets (fst (prepare fw cfg dsk))
     = \<lparr>net_G = copy_vars_from fw (net_G (initial_nets fw)) rG,
        net_D = copy_vars_from fw (net_D (initial_nets fw)) rD,
        net_Gs = copy_vars_from fw (net_Gs (initial_nets fw)) rGs,
        net_E = copy_vars_from fw (net_E (initial_nets fw)) rE,
        net_D_H = copy_vars_from fw (net_D_H (initial_nets fw)) rD_H,
        net_D_J = copy_vars_from fw (net_D_J (initial_nets fw)) rD_J\<rparr>"
proof -
  from assms(2,3) have m: "py_mod (minibatch_size cfg) (num_gpus cfg * minibatch_gpu cfg) = Inr 0"
    by (simp add: py_mod_def)
  show ?thesis
    using assms(1,4) m
    by (simp add: prepare_def Let_def emit_def start_state_def resume_networks_def
        split: sum.splits)
qed

lemma training_loop_pickles:
  assumes "training_loop fw cfg dsk fuel = (fin, out, n)"
  shows "\<exists>es. pickle_writes (trace fin) = pickle_writes es \<and> list_all (loop_event cfg) es
          \<and> disk fin = dsk ++ map_of (rev (pickle_writes es))"
proof -
  obtain st0 err where p: "prepare fw cfg dsk = (st0, err)" by (cases "prepare fw cfg dsk")
  note pp = prepare_projections [OF p]
  show ?thesis
  proof (cases err)
    case (Some e)
    with assms p have "fin = st0" by (simp add: training_loop_def)
    with pp show ?thesis by (intro exI [of _ "[]"]) simp
  next
    case None
    obtain st1 out1 n1 where w: "training_while fw cfg fuel st0 = (st1, out1, n1)"
      by (cases "training_while fw cfg fuel st0")
    from extends_training_while [OF w] obtain es where
      es: "trace st1 = trace st0 @ es" "list_all (loop_event cfg) es"
      "disk st1 = (disk st0) ++ map_of (rev (pickle_writes es))"
      by (auto simp: extends_def)
    from assms p None w have "trace fin = trace st1 \<or> trace fin = trace st1 @ [Close_log, Close_dataset]"
      "disk fin = disk st1"
      by (auto simp: training_loop_def emit_def split: if_splits)
    with es pp show ?thesis
      by (intro exI [of _ es]) (auto simp: pickle_writes_append)
  qed
qed

lemma loop_event_pickle_names:
  "list_all (loop_event cfg) es \<Longrightarrow> (q, s) \<in> set (pickle_writes es) \<Longrightarrow>
   \<exists>k. q = snapshot_name cfg k"
  by (induction es rule: pickle_writes.induct) auto

lemma last_write_on_disk:
  assumes "q \<in> fst ` set ws"
  shows "\<exists>s. (d ++ map_of (rev ws)) q = Some s \<and> (q, s) \<in> set ws"
proof -
  from assms have "q \<in> fst ` set (rev ws)" by simp
  then obtain s where s: "map_of (rev ws) q = Some s"
    by (metis map_of_eq_None_iff not_Some_eq)
  then have "(q, s) \<in> set ws" by (auto dest: map_of_SomeD)
  with s show ?thesis by (auto simp: map_add_Some_iff)
qed

lemma snapshot_name_in_run_dir: "\<exists>rest. snapshot_name cfg k = run_dir cfg @ rest"
  by (simp add: snapshot_name_def path_join_def)

text \<open>
  Claim C1. A network snapshot that is written appends to the trace a \<open>pickle.dump\<close> of
  the tuple \<open>(G, D, Gs, E, D_H, D_J)\<close> of the current networks, to the file
  \<open>network-snapshot-<kimg>.pkl\<close> in the run directory. A run of \<open>training_loop\<close> that
  passes its assertion and has \<open>resume_pkl\<close> set to that file gives each of its six
  freshly constructed networks the result of \<open>copy_vars_from\<close> on the network saved in
  the same position, so that, when \<open>copy_vars_from\<close> leaves the weights of the source in
  the target, each network has exactly the weights that were saved for it. Every pickle
  file written by a run of \<open>training_loop\<close> is such a snapshot file, it is on the disk
  afterwards with a tuple that was dumped to it, and resuming from it restores the
  weights of that tuple.
\<close>

theorem snapshot_round_trip:
  assumes snap: "network_snapshot cfg dn st = (st', err)"
    and wrote: "trace st' \<noteq> trace st"
    and run: "training_loop fw cfg dsk fuel = (fin, out, n)"
    and resume: "resume_pkl cfg' = Some p"
    and ok: "num_gpus cfg' * minibatch_gpu cfg' \<noteq> 0"
      "num_gpus cfg' * minibatch_gpu cfg' dvd minibatch_size cfg'"
    and cp: "\<forall>dst src. weights (copy_vars_from fw dst src) = weights src"
  shows "trace st' = trace st
           @ Pickle_dump (snapshot_name cfg (cur_nimg st))
               (net_G (nets st), net_D (nets st), net_Gs (nets st),
                net_E (nets st), net_D_H (nets st), net_D_J (nets st))
             # replicate (num_metrics cfg) (Metric_run (snapshot_name cfg (cur_nimg st)))
     \<and> snapshot_name cfg (cur_nimg st)
         = path_join (run_dir cfg) (''network-snapshot-'' @ fmt06d (cur_nimg st div 1000) @ ''.pkl'')
     \<and> (\<exists>rest. snapshot_name cfg (cur_nimg st) = run_dir cfg @ rest)
     \<and> (p = snapshot_name cfg (cur_nimg st) \<longrightarrow>
           nets (fst (prepare fw cfg' (disk st')))
             = \<lparr>net_G = copy_vars_from fw (net_G (initial_nets fw)) (net_G (nets st)),
                net_D = copy_vars_from fw (net_D (initial_nets fw)) (net_D (nets st)),
                net_Gs = copy_vars_from fw (net_Gs (initial_nets fw)) (net_Gs (nets st)),
                net_E = copy_vars_from fw (net_E (initial_nets fw)) (net_E (nets st)),
                net_D_H = copy_vars_from fw (net_D_H (initial_nets fw)) (net_D_H (nets st)),
                net_D_J = copy_vars_from fw (net_D_J (initial_nets fw)) (net_D_J (nets st))\<rparr>
         \<and> weights (net_G (nets (fst (prepare fw cfg' (disk st'))))) = weights (net_G (nets st))
         \<and> weights (net_D (nets (fst (prepare fw cfg' (disk st'))))) = weights (net_D (nets st))
         \<and> weights (net_Gs (nets (fst (prepare fw cfg' (disk st'))))) = weights (net_Gs (nets st))
         \<and> weights (net_E (nets (fst (prepare fw cfg' (disk st'))))) = weights (net_E (nets st))
         \<and> weights (net_D_H (nets (fst (prepare fw cfg' (disk st'))))) = weights (net_D_H (nets st))
         \<and> weights (net_D_J (nets (fst (prepare fw cfg' (disk st'))))) = weights (net_D_J (nets st)))
     \<and> (\<forall>q\<in>fst ` set (pickle_writes (trace fin)).
           (\<exists>k. q = snapshot_name cfg k)
         \<and> (\<exists>s. disk fin q = Some s \<and> (q, s) \<in> set (pickle_writes (trace fin))))
     \<and> (p \<in> fst ` set (pickle_writes (trace fin)) \<longrightarrow>
           (\<exists>rG rD rGs rE rD_H rD_J.
               (p, (rG, rD, rGs, rE, rD_H, rD_J)) \<in> set (pickle_writes (trace fin))
             \<and> weights (net_G (nets (fst (prepare fw cfg' (disk fin))))) = weights rG
             \<and> weights (net_D (nets (fst (prepare fw cfg' (disk fin))))) = weights rD
             \<and> weights (net_Gs (nets (fst (prepare fw cfg' (disk fin))))) = weights rGs
             \<and> weights (net_E (nets (fst (prepare fw cfg' (disk fin))))) = weights rE
             \<and> weights (net_D_H (nets (fst (prepare fw cfg' (disk fin))))) = weights rD_H
             \<and> weights (net_D_J (nets (fst (prepare fw cfg' (disk fin))))) = weights rD_J))"
proof -
  let ?pkl = "snapshot_name cfg (cur_nimg st)"
  note w = network_snapshot_written [OF snap wrote]
  have A: "trace st' = trace st
           @ Pickle_dump ?pkl
               (net_G (nets st), net_D (nets st), net_Gs (nets st),
                net_E (nets st), net_D_H (nets st), net_D_J (nets st))
             # replicate (num_metrics cfg) (Metric_run ?pkl)"
    unfolding w by (simp add: emit_def snapshot_of_def)
  have B: "?pkl = path_join (run_dir cfg) (''network-snapshot-'' @ fmt06d (cur_nimg st div 1000) @ ''.pkl'')"
    by (simp add: snapshot_name_def)
  have d: "disk st' ?pkl = Some (net_G (nets st), net_D (nets st), net_Gs (nets st),
                net_E (nets st), net_D_H (nets st), net_D_J (nets st))"
    unfolding w by (simp add: emit_def snapshot_of_def)
  have C: "nets (fst (prepare fw cfg' (disk st')))
             = \<lparr>net_G = copy_vars_from fw (net_G (initial_nets fw)) (net_G (nets st)),
                net_D = copy_vars_from fw (net_D (initial_nets fw)) (net_D (nets st)),
                net_Gs = copy_vars_from fw (net_Gs (initial_nets fw)) (net_Gs (nets st)),
                net_E = copy_vars_from fw (net_E (initial_nets fw)) (net_E (nets st)),
                net_D_H = copy_vars_from fw (net_D_H (initial_nets fw)) (net_D_H (nets st)),
                net_D_J = copy_vars_from fw (net_D_J (initial_nets fw)) (net_D_J (nets st))\<rparr>"
    if "p = ?pkl"
    using prepare_resume [OF resume ok, of "disk st'"] d that by simp
  from training_loop_pickles [OF run] obtain es where
    es: "pickle_writes (trace fin) = pickle_writes es" "list_all (loop_event cfg) es"
    "disk fin = dsk ++ map_of (rev (pickle_writes es))" by blast
  have D: "(\<exists>k. q = snapshot_name cfg k)
         \<and> (\<exists>s. disk fin q = Some s \<and> (q, s) \<in> set (pickle_writes (trace fin)))"
    if q: "q \<in> fst ` set (pickle_writes (trace fin))" for q
  proof -
    from q obtain s0 where "(q, s0) \<in> set (pickle_writes es)" unfolding es(1) by auto
    from loop_event_pickle_names [OF es(2) this] have "\<exists>k. q = snapshot_name cfg k" .
    moreover from last_write_on_disk [of q "pickle_writes es" dsk] q
    have "\<exists>s. disk fin q = Some s \<and> (q, s) \<in> set (pickle_writes (trace fin))"
      unfolding es(1) es(3) by simp
    ultimately show ?thesis by blast
  qed
  have E: "\<exists>rG rD rGs rE rD_H rD_J.
               (p, (rG, rD, rGs, rE, rD_H, rD_J)) \<in> set (pickle_writes (trace fin))
             \<and> weights (net_G (nets (fst (prepare fw cfg' (disk fin))))) = weights rG
             \<and> weights (net_D (nets (fst (prepare fw cfg' (disk fin))))) = weights rD
             \<and> weights (net_Gs (nets (fst (prepare fw cfg' (disk fin))))) = weights rGs
             \<and> weights (net_E (nets (fst (prepare fw cfg' (disk fin))))) = weights rE
             \<and> weights (net_D_H (nets (fst (prepare fw cfg' (disk fin))))) = weights rD_H
             \<and> weights (net_D_J (nets (fst (prepare fw cfg' (disk fin))))) = weights rD_J"
    if "p \<in> fst ` set (pickle_writes (trace fin))"
  proof -
    from D [OF that] obtain s where s: "disk fin p = Some s" "(p, s) \<in> set (pickle_writes (trace fin))"
      by blast
    obtain rG rD rGs rE rD_H rD_J where t: "s = (rG, rD, rGs, rE, rD_H, rD_J)"
      by (cases s)
    from prepare_resume [OF resume ok, of "disk fin"] s(1) t cp
    have "weights (net_G (nets (fst (prepare fw cfg' (disk fin))))) = weights rG
        \<and> weights (net_D (nets (fst (prepare fw cfg' (disk fin))))) = weights rD
        \<and> weights (net_Gs (nets (fst (prepare fw cfg' (disk fin))))) = weights rGs
        \<and> weights (net_E (nets (fst (prepare fw cfg' (disk fin))))) = weights rE
        \<and> weights (net_D_H (nets (fst (prepare fw cfg' (disk fin))))) = weights rD_H
        \<and> weights (net_D_J (nets (fst (prepare fw cfg' (disk fin))))) = weights rD_J"
      by simp
    with s(2) t show ?thesis by blast
  qed
  from C cp have C': "p = ?pkl \<longrightarrow>
           nets (fst (prepare fw cfg' (disk st')))
             = \<lparr>net_G = copy_vars_from fw (net_G (initial_nets fw)) (net_G (nets st)),
                net_D = copy_vars_from fw (net_D (initial_nets fw)) (net_D (nets st)),
                net_Gs = copy_vars_from fw (net_Gs (initial_nets fw)) (net_Gs (nets st)),
                net_E = copy_vars_from fw (net_E (initial_nets fw)) (net_E (nets st)),
                net_D_H = copy_vars_from fw (net_D_H (initial_nets fw)) (net_D_H (nets st)),
                net_D_J = copy_vars_from fw (net_D_J (initial_nets fw)) (net_D_J (nets st))\<rparr>
         \<and> weights (net_G (nets (fst (prepare fw cfg' (disk st'))))) = weights (net_G (nets st))
         \<and> weights (net_D (nets (fst (prepare fw cfg' (disk st'))))) = weights (net_D (nets st))
         \<and> weights (net_Gs (nets (fst (prepare fw cfg' (disk st'))))) = weights (net_Gs (nets st))
         \<and> weights (net_E (nets (fst (prepare fw cfg' (disk st'))))) = weights (net_E (nets st))
         \<and> weights (net_D_H (nets (fst (prepare fw cfg' (disk st'))))) = weights (net_D_H (nets st))
         \<and> weights (net_D_J (nets (fst (prepare fw cfg' (disk st'))))) = weights (net_D_J (nets st))"
    by simp
  from A B snapshot_name_in_run_dir [of cfg "cur_nimg st"] C' D E show ?thesis by blast
qed

lemma ex_zero_run:
  "pickle_writes (trace (fst (training_loop ex_fw ex_zero Map.empty 2)))
     = [(snapshot_name ex_zero 32, (2, 1, 2, 1, 3, 3))]"
  by (simp add: run_defs ex_zero_def ex_cfg_def ex_fw_def ex_opt_args_def ex_terms_def
      ex_session_run_def snapshot_of_def pickle_writes_append numeral_2_eq_2)

theorem snapshot_round_trip_witness:
  "trace (fst (network_snapshot ex_zero True (start_state ex_fw Map.empty)))
     = [Pickle_dump (snapshot_name ex_zero 0) (1, 1, 1, 1, 3, 3)]
   \<and> nets (fst (prepare ex_fw (ex_zero\<lparr>resume_pkl := Some (snapshot_name ex_zero 0)\<rparr>)
        (disk (fst (network_snapshot ex_zero True (start_state ex_fw Map.empty))))))
     = \<lparr>net_G = 1, net_D = 1, net_Gs = 1, net_E = 1, net_D_H = 3, net_D_J = 3\<rparr>
   \<and> pickle_writes (trace (fst (training_loop ex_fw ex_zero Map.empty 2)))
     = [(snapshot_name ex_zero 0, (2, 1, 2, 1, 3, 3))]
   \<and> net_G (nets (fst (prepare ex_fw (ex_zero\<lparr>resume_pkl := Some (snapshot_name ex_zero 0)\<rparr>)
        (disk (fst (training_loop ex_fw ex_zero Map.empty 2)))))) = 2
   \<and> net_D_J (nets (fst (prepare ex_fw (ex_zero\<lparr>resume_pkl := Some (snapshot_name ex_zero 0)\<rparr>)
        (disk (fst (training_loop ex_fw ex_zero Map.empty 2)))))) = 3"
proof -
  let ?s0 = "start_state ex_fw Map.empty :: nat loop_state"
  let ?sn = "network_snapshot ex_zero True ?s0"
  let ?r = "training_loop ex_fw ex_zero Map.empty 2"
  let ?c = "ex_zero\<lparr>resume_pkl := Some (snapshot_name ex_zero 0)\<rparr>"
  have n: "snapshot_name ex_zero 32 = snapshot_name ex_zero 0"
    by (simp add: snapshot_name_def)
  have sn: "?sn = (fst ?sn, snd ?sn)" by simp
  have wr: "trace (fst ?sn) \<noteq> trace ?s0"
    by (simp add: network_snapshot_def snapshot_due_def ex_zero_def ex_cfg_def start_state_def
        emit_def Let_def)
  have rn: "?r = (fst ?r, fst (snd ?r), snd (snd ?r))" by simp
  have c: "resume_pkl ?c = Some (snapshot_name ex_zero 0)" "num_gpus ?c * minibatch_gpu ?c \<noteq> 0"
    "num_gpus ?c * minibatch_gpu ?c dvd minibatch_size ?c"
    by (simp_all add: ex_zero_def ex_cfg_def)
  have cp: "\<forall>dst src. id (copy_vars_from ex_fw dst src) = id src"
    by (simp add: ex_fw_def)
  note t = snapshot_round_trip [OF sn wr rn c cp]
  have s0: "cur_nimg ?s0 = 0" "trace ?s0 = []" "num_metrics ex_zero = 0"
    "nets ?s0 = \<lparr>net_G = 1, net_D = 1, net_Gs = 1, net_E = 1, net_D_H = 3, net_D_J = 3\<rparr>"
    by (simp_all add: start_state_def initial_nets_def ex_fw_def ex_zero_def ex_cfg_def Let_def)
  from t [THEN conjunct1] s0
  have 1: "trace (fst ?sn) = [Pickle_dump (snapshot_name ex_zero 0) (1, 1, 1, 1, 3, 3)]"
    by simp
  from t [THEN conjunct2, THEN conjunct2, THEN conjunct2, THEN conjunct1] s0
  have 2: "nets (fst (prepare ex_fw ?c (disk (fst ?sn))))
     = \<lparr>net_G = 1, net_D = 1, net_Gs = 1, net_E = 1, net_D_H = 3, net_D_J = 3\<rparr>"
    by (simp add: initial_nets_def ex_fw_def Let_def)
  have 3: "pickle_writes (trace (fst ?r)) = [(snapshot_name ex_zero 0, (2, 1, 2, 1, 3, 3))]"
    using ex_zero_run n by simp
  then have "snapshot_name ex_zero 0 \<in> fst ` set (pickle_writes (trace (fst ?r)))" by simp
  with t [THEN conjunct2, THEN conjunct2, THEN conjunct2, THEN conjunct2, THEN conjunct2] 3
  have 4: "net_G (nets (fst (prepare ex_fw ?c (disk (fst ?r))))) = 2"
    "net_D_J (nets (fst (prepare ex_fw ?c (disk (fst ?r))))) = 3"
    by simp_all
  from 1 2 3 4 show ?thesis by blast
qed

section \<open>Properties of the training script: the order of the operations\<close>

lemma runs_of_train_G_rounds:
  "runs_of G_train_op (concat (replicate n (G_round_events r))) = n"
  "runs_of D_train_op (concat (replicate n (G_round_events r))) = 0"
  "runs_of Gs_update_op (concat (replicate n (G_round_events r))) = 0"
  by (induction n) (simp_all add: runs_of_append G_round_events_def)

lemma runs_of_train_D_rounds:
  "runs_of D_train_op (concat (replicate n (D_round_events r))) = n"
  "runs_of G_train_op (concat (replicate n (D_round_events r))) = 0"
  "runs_of Gs_update_op (concat (replicate n (D_round_events r))) = 0"
  by (induction n) (simp_all add: runs_of_append D_round_events_def)

text \<open>
  Claim C2, as stated: every minibatch iteration runs first the G/E step and later the
  D step together with the Gs update. It fails for \<open>minibatch_size = 0\<close>, which passes
  the assertion: the iterations of the first pass have no round, the Gs update runs,
  and neither the G/E step nor the D step does.
\<close>

theorem minibatch_iteration_order_counterexample:
  "\<not> (0 < runs_of Gs_update_op (trace (fst (training_loop ex_fw ex_empty Map.empty 1)))
        \<longrightarrow> 0 < runs_of G_train_op (trace (fst (training_loop ex_fw ex_empty Map.empty 1)))
            \<and> 0 < runs_of D_train_op (trace (fst (training_loop ex_fw ex_empty Map.empty 1))))"
proof -
  have "trace (fst (training_loop ex_fw ex_empty Map.empty 1))
      = trace (fst (prepare ex_fw ex_empty Map.empty))
        @ replicate 4 (Tf_run [Gs_update_op] (Some (Gs_beta_of ex_empty 0)))"
    by (simp add: run_defs ex_empty_def ex_cfg_def ex_fw_def ex_opt_args_def numeral_eq_Suc)
  moreover have "runs_of x (trace (fst (prepare ex_fw ex_empty Map.empty))) = 0" for x
    by (simp add: run_defs ex_empty_def ex_cfg_def ex_fw_def ex_opt_args_def ex_terms_def)
  ultimately show ?thesis by (simp add: runs_of_append numeral_eq_Suc)
qed

text \<open>
  Claim C2, amended. A minibatch iteration whose preliminaries do not raise runs, after
  what was on the trace, exactly these operations in this order. With one round (fast
  path): the G/E step with the data fetch, the G regularization if due, the D step
  together with the Gs update, the D regularization if due. With any other number of
  rounds (slow path): for each round the G/E step and, if due, the G regularization;
  then the single Gs update; then for each round the data fetch, the D step and, if
  due, the D regularization. The validation of the augmentation, if any, comes last.
  So an iteration with at least one round starts with the G/E step, and every
  iteration runs the G/E step and the D step once per round and the Gs update once;
  an iteration without a round runs the Gs update only.
\<close>

theorem minibatch_iteration_order:
  assumes rounds: "range_len (minibatch_size cfg) (minibatch_gpu cfg * num_gpus cfg) = Inr rounds"
    and rG: "reg_due cfg (running_mb_counter st) (G_reg_interval cfg) = Inr run_G_reg"
    and rD: "reg_due cfg (running_mb_counter st) (D_reg_interval cfg) = Inr run_D_reg"
  shows "\<exists>st'. minibatch_iteration fw cfg Gs_beta st = (st', None)
      \<and> trace st' = trace st
          @ (if rounds = 1 then
               [Tf_run [G_train_op, data_fetch_op] None]
               @ (if run_G_reg then [Tf_run [G_reg_op] None] else [])
               @ [Tf_run [D_train_op, Gs_update_op] (Some Gs_beta)]
               @ (if run_D_reg then [Tf_run [D_reg_op] None] else [])
             else
               concat (replicate rounds
                 (Tf_run [G_train_op] None # (if run_G_reg then [Tf_run [G_reg_op] None] else [])))
               @ [Tf_run [Gs_update_op] (Some Gs_beta)]
               @ concat (replicate rounds
                   ([Tf_run [data_fetch_op] None, Tf_run [D_train_op] None]
                    @ (if run_D_reg then [Tf_run [D_reg_op] None] else []))))
          @ (if augment cfg then [Aug_run_validation (minibatch_size cfg)] else [])
      \<and> (1 \<le> rounds \<longrightarrow>
            (\<exists>rest. trace st' = trace st
               @ Tf_run (if rounds = 1 then [G_train_op, data_fetch_op] else [G_train_op]) None # rest))
      \<and> (rounds = 0 \<longrightarrow>
            trace st' = trace st @ [Tf_run [Gs_update_op] (Some Gs_beta)]
               @ (if augment cfg then [Aug_run_validation (minibatch_size cfg)] else []))
      \<and> runs_of G_train_op (trace st') = runs_of G_train_op (trace st) + rounds
      \<and> runs_of D_train_op (trace st') = runs_of D_train_op (trace st) + rounds
      \<and> runs_of Gs_update_op (trace st') = runs_of Gs_update_op (trace st) + 1"
proof -
  let ?aug = "if augment cfg then [Aug_run_validation (minibatch_size cfg)] else []"
  let ?fast = "[Tf_run [G_train_op, data_fetch_op] None]
               @ (if run_G_reg then [Tf_run [G_reg_op] None] else [])
               @ [Tf_run [D_train_op, Gs_update_op] (Some Gs_beta)]
               @ (if run_D_reg then [Tf_run [D_reg_op] None] else [])"
  let ?slow = "concat (replicate rounds (G_round_events run_G_reg))
               @ [Tf_run [Gs_update_op] (Some Gs_beta)]
               @ concat (replicate rounds (D_round_events run_D_reg))"
  from assms obtain st' where it: "minibatch_iteration fw cfg Gs_beta st = (st', None)"
    and tr: "trace st' = trace st @ (if rounds = 1 then ?fast else ?slow) @ ?aug"
    by (simp add: minibatch_iteration_def Let_def emit_def fast_path_trace slow_path_trace)
  have ra: "runs_of x ?aug = 0" for x by simp
  have g: "runs_of G_train_op (trace st') = runs_of G_train_op (trace st) + rounds"
    unfolding tr
    by (cases "rounds = 1")
      (simp_all add: runs_of_append runs_of_train_G_rounds runs_of_train_D_rounds)
  have d: "runs_of D_train_op (trace st') = runs_of D_train_op (trace st) + rounds"
    unfolding tr
    by (cases "rounds = 1")
      (simp_all add: runs_of_append runs_of_train_G_rounds runs_of_train_D_rounds)
  have s: "runs_of Gs_update_op (trace st') = runs_of Gs_update_op (trace st) + 1"
    unfolding tr
    by (cases "rounds = 1")
      (simp_all add: runs_of_append runs_of_train_G_rounds runs_of_train_D_rounds)
  have z: "trace st' = trace st @ [Tf_run [Gs_update_op] (Some Gs_beta)] @ ?aug"
    if "rounds = 0"
    unfolding tr using that by simp
  have h: "\<exists>rest. trace st' = trace st
       @ Tf_run (if rounds = 1 then [G_train_op, data_fetch_op] else [G_train_op]) None # rest"
    if "1 \<le> rounds"
  proof (cases "rounds = 1")
    case True
    then show ?thesis unfolding tr by simp
  next
    case False
    from that obtain m where m: "rounds = Suc m" by (cases rounds) auto
    from False show ?thesis unfolding tr m by (simp add: G_round_events_def)
  qed
  have e: "trace st' = trace st
          @ (if rounds = 1 then
               [Tf_run [G_train_op, data_fetch_op] None]
               @ (if run_G_reg then [Tf_run [G_reg_op] None] else [])
               @ [Tf_run [D_train_op, Gs_update_op] (Some Gs_beta)]
               @ (if run_D_reg then [Tf_run [D_reg_op] None] else [])
             else
               concat (replicate rounds
                 (Tf_run [G_train_op] None # (if run_G_reg then [Tf_run [G_reg_op] None] else [])))
               @ [Tf_run [Gs_update_op] (Some Gs_beta)]
               @ concat (replicate rounds
                   ([Tf_run [data_fetch_op] None, Tf_run [D_train_op] None]
                    @ (if run_D_reg then [Tf_run [D_reg_op] None] else []))))
          @ (if augment cfg then [Aug_run_validation (minibatch_size cfg)] else [])"
    unfolding tr by (simp add: G_round_events_def D_round_events_def)
  from it e h z g d s show ?thesis by blast
qed

theorem minibatch_iteration_order_witness:
  "\<exists>st'. minibatch_iteration ex_fw (ex_cfg\<lparr>minibatch_gpu := 16\<rparr>) (1 / 4) (start_state ex_fw Map.empty)
             = (st', None)
        \<and> trace st' =
            [Tf_run [G_train_op] None, Tf_run [G_reg_op] None,
             Tf_run [G_train_op] None, Tf_run [G_reg_op] None,
             Tf_run [Gs_update_op] (Some (1 / 4)),
             Tf_run [data_fetch_op] None, Tf_run [D_train_op] None, Tf_run [D_reg_op] None,
             Tf_run [data_fetch_op] None, Tf_run [D_train_op] None, Tf_run [D_reg_op] None]
        \<and> runs_of G_train_op (trace st') = 2
        \<and> runs_of D_train_op (trace st') = 2
        \<and> runs_of Gs_update_op (trace st') = 1"
proof -
  let ?c = "ex_cfg\<lparr>minibatch_gpu := 16\<rparr>"
  let ?s = "start_state ex_fw Map.empty :: nat loop_state"
  have r: "range_len (minibatch_size ?c) (minibatch_gpu ?c * num_gpus ?c) = Inr 2"
    by (simp add: ex_cfg_def range_len_def)
  have g: "reg_due ?c (running_mb_counter ?s) (G_reg_interval ?c) = Inr True"
    by (simp add: ex_cfg_def reg_due_def py_mod_def start_state_def)
  have d: "reg_due ?c (running_mb_counter ?s) (D_reg_interval ?c) = Inr True"
    by (simp add: ex_cfg_def reg_due_def py_mod_def start_state_def)
  have a: "\<not> augment ?c" "trace ?s = []"
    by (simp_all add: ex_cfg_def start_state_def)
  have two: "replicate 2 x = [x, x]" for x :: "nat event list"
    by (simp add: numeral_2_eq_2)
  from minibatch_iteration_order [OF r g d, of ex_fw "1 / 4"]
  obtain st' where i: "minibatch_iteration ex_fw ?c (1 / 4) ?s = (st', None)"
    and t: "trace st' = trace ?s
          @ (if (2::nat) = 1 then
               [Tf_run [G_train_op, data_fetch_op] None]
               @ (if True then [Tf_run [G_reg_op] None] else [])
               @ [Tf_run [D_train_op, Gs_update_op] (Some (1 / 4))]
               @ (if True then [Tf_run [D_reg_op] None] else [])
             else
               concat (replicate 2
                 (Tf_run [G_train_op] None # (if True then [Tf_run [G_reg_op] None] else [])))
               @ [Tf_run [Gs_update_op] (Some (1 / 4))]
               @ concat (replicate 2
                   ([Tf_run [data_fetch_op] None, Tf_run [D_train_op] None]
                    @ (if True then [Tf_run [D_reg_op] None] else []))))
          @ (if augment ?c then [Aug_run_validation (minibatch_size ?c)] else [])"
    and n: "runs_of G_train_op (trace st') = runs_of G_train_op (trace ?s) + 2"
      "runs_of D_train_op (trace st') = runs_of D_train_op (trace ?s) + 2"
      "runs_of Gs_update_op (trace st') = runs_of Gs_update_op (trace ?s) + 1"
    by blast
  from t a have t': "trace st' =
            [Tf_run [G_train_op] None, Tf_run [G_reg_op] None,
             Tf_run [G_train_op] None, Tf_run [G_reg_op] None,
             Tf_run [Gs_update_op] (Some (1 / 4)),
             Tf_run [data_fetch_op] None, Tf_run [D_train_op] None, Tf_run [D_reg_op] None,
             Tf_run [data_fetch_op] None, Tf_run [D_train_op] None, Tf_run [D_reg_op] None]"
    by (simp add: two)
  from n a have "runs_of G_train_op (trace st') = 2" "runs_of D_train_op (trace st') = 2"
    "runs_of Gs_update_op (trace st') = 1" by simp_all
  with i t' show ?thesis by blast
qed


end
